theory Spec2Isabelle
  imports Complex_Main
begin

section \<open>Numbers, errors and dynamically typed values\<close>

text \<open>
  A Python number is modelled by its real value, and arithmetic on numbers is that of the
  reals: rounding and the values \<^verbatim>\<open>nan\<close> and \<^verbatim>\<open>inf\<close> are not represented. The numbers are
  Python's own \<^verbatim>\<open>int\<close> and \<^verbatim>\<open>float\<close>: on NumPy's scalars (the seeds \<^verbatim>\<open>jacobian\<close> takes
  from \<^verbatim>\<open>np.identity\<close>, the results of NumPy's functions) division by zero and a power
  out of range return \<^verbatim>\<open>inf\<close> or \<^verbatim>\<open>nan\<close> with a warning where Python's numbers raise, and
  that is not represented either. Every \<^verbatim>\<open>raise\<close> and every failing \<^verbatim>\<open>assert\<close> of the source
  is a value of \<open>error\<close>. A \<^verbatim>\<open>ValueError\<close> carries what its message is about: the
  dimensions of a point or seed (func.py), or the domain of an elementary function
  (operators.py).
\<close>

datatype value_error = DimensionMismatch | DomainError

datatype error =
    TypeError
  | ValueError value_error
  | AssertionError
  | ZeroDivisionError
  | AttributeError
  | NameError
  | OverflowError
  | ComplexResult

record DualNumber =
  real_c :: real
  dual_c :: real

text \<open>
  A Python object as an operator can receive it: a number (\<^verbatim>\<open>int\<close>, \<^verbatim>\<open>float\<close>, and \<^verbatim>\<open>bool\<close>,
  which is an \<^verbatim>\<open>int\<close>), a \<^verbatim>\<open>DualNumber\<close>, a reference to an \<^verbatim>\<open>rNode\<close> (its address in
  the heap), or any other object (a string, \<^verbatim>\<open>None\<close>, ...). A number comes in two
  forms: \<open>PNum\<close> gives it by its value alone, and stands for a \<^verbatim>\<open>float\<close> or for an \<^verbatim>\<open>int\<close>
  that NumPy converts; \<open>PInt\<close> is a Python \<^verbatim>\<open>int\<close> given as such, of any size. The
  components of a \<^verbatim>\<open>DualNumber\<close> and the value of an \<^verbatim>\<open>rNode\<close> are kept by value alone.
\<close>

datatype pyval = PNum real | PInt int | PDual DualNumber | PNode nat | POther

text \<open>
  NumPy takes a Python \<^verbatim>\<open>int\<close> as a 64-bit integer, signed or unsigned. An \<^verbatim>\<open>int\<close> that
  fits neither becomes an object, on which \<^verbatim>\<open>np.log\<close>, \<^verbatim>\<open>np.sqrt\<close> and the other functions
  raise \<^verbatim>\<open>TypeError\<close>.
\<close>

definition numpy_converts :: "int \<Rightarrow> bool" where
  "numpy_converts n = (- (2 ^ 63) \<le> n \<and> n < 2 ^ 64)"

definition bindE :: "error + 'a \<Rightarrow> ('a \<Rightarrow> error + 'b) \<Rightarrow> error + 'b" where
  "bindE m f = (case m of Inl e \<Rightarrow> Inl e | Inr v \<Rightarrow> f v)"

text \<open>\<^verbatim>\<open>a / b\<close> on Python numbers raises \<^verbatim>\<open>ZeroDivisionError\<close> when \<^verbatim>\<open>b\<close> is zero.\<close>

definition py_div :: "real \<Rightarrow> real \<Rightarrow> error + real" where
  "py_div a b = (if b = 0 then Inl ZeroDivisionError else Inr (a / b))"

text \<open>
  \<^verbatim>\<open>a ** b\<close> (and \<^verbatim>\<open>pow(a, b)\<close>) on Python numbers: zero to a negative power raises
  \<^verbatim>\<open>ZeroDivisionError\<close>; \<^verbatim>\<open>0 ** 0\<close> is 1; a negative base with an integral exponent is the
  integer power; a negative base with a fractional exponent is a complex number in Python,
  which leaves the reals: the model stops there with \<open>ComplexResult\<close>. A power of floats
  beyond the largest double raises \<^verbatim>\<open>OverflowError\<close>, where a power of \<^verbatim>\<open>int\<close>s is exact
  whatever its size; the operands are kept by value here, and the bound is put where
  the power is known to become a float.
\<close>

definition py_pow :: "real \<Rightarrow> real \<Rightarrow> error + real" where
  "py_pow a b =
     (if a = 0 \<and> b < 0 then Inl ZeroDivisionError
      else if a < 0 \<and> of_int \<lfloor>b\<rfloor> \<noteq> b then Inl ComplexResult
      else if 0 < a then Inr (a powr b)
      else if a = 0 then Inr (if b = 0 then 1 else 0)
      else Inr (a powi \<lfloor>b\<rfloor>))"

text \<open>
  \<^verbatim>\<open>np.log\<close>: the natural logarithm. On a non-positive argument NumPy returns \<^verbatim>\<open>nan\<close> or
  \<^verbatim>\<open>-inf\<close> with a warning and does not raise; there the model has HOL's \<open>ln\<close>, whose
  value is unspecified. On a Python \<^verbatim>\<open>int\<close> that it does not convert \<^verbatim>\<open>np.log\<close> raises
  \<^verbatim>\<open>TypeError\<close>: that is said at the call, where the argument is known to be such an
  \<^verbatim>\<open>int\<close>.
\<close>

definition np_log :: "real \<Rightarrow> real" where
  "np_log a = ln a"

text \<open>
  The largest double, and bringing a number to a \<^verbatim>\<open>float\<close>: a result of \<^verbatim>\<open>**\<close> on floats, or
  an \<^verbatim>\<open>int\<close> in an operation with a float, that is beyond it raises \<^verbatim>\<open>OverflowError\<close>.
\<close>

definition float_max :: real where
  "float_max = 2 ^ 1024 - 2 ^ 971"

definition as_float :: "real \<Rightarrow> error + real" where
  "as_float v = (if float_max < \<bar>v\<bar> then Inl OverflowError else Inr v)"

section \<open>dualnumber.py\<close>

text \<open>\<^verbatim>\<open>DualNumber.__init__(real, dual)\<close>: both components must be numbers.\<close>

definition DualNumber_init :: "pyval \<Rightarrow> pyval \<Rightarrow> error + DualNumber" where
  "DualNumber_init r d =
     (case r of
        PNum a \<Rightarrow>
          (case d of
             PNum a' \<Rightarrow> Inr \<lparr>real_c = a, dual_c = a'\<rparr>
           | PInt n' \<Rightarrow> Inr \<lparr>real_c = a, dual_c = of_int n'\<rparr>
           | _ \<Rightarrow> Inl TypeError)
      | PInt n \<Rightarrow>
          (case d of
             PNum a' \<Rightarrow> Inr \<lparr>real_c = of_int n, dual_c = a'\<rparr>
           | PInt n' \<Rightarrow> Inr \<lparr>real_c = of_int n, dual_c = of_int n'\<rparr>
           | _ \<Rightarrow> Inl TypeError)
      | _ \<Rightarrow> Inl TypeError)"

definition DualNumber_neg :: "DualNumber \<Rightarrow> DualNumber" where
  "DualNumber_neg self = \<lparr>real_c = - real_c self, dual_c = - dual_c self\<rparr>"

definition DualNumber_add :: "DualNumber \<Rightarrow> pyval \<Rightarrow> error + DualNumber" where
  "DualNumber_add self other =
     (case other of
        PNum c \<Rightarrow> Inr \<lparr>real_c = c + real_c self, dual_c = dual_c self\<rparr>
      | PInt n \<Rightarrow> Inr \<lparr>real_c = of_int n + real_c self, dual_c = dual_c self\<rparr>
      | PDual w \<Rightarrow> Inr \<lparr>real_c = real_c self + real_c w, dual_c = dual_c self + dual_c w\<rparr>
      | _ \<Rightarrow> Inl TypeError)"

definition DualNumber_mul :: "DualNumber \<Rightarrow> pyval \<Rightarrow> error + DualNumber" where
  "DualNumber_mul self other =
     (case other of
        PNum c \<Rightarrow> Inr \<lparr>real_c = c * real_c self, dual_c = c * dual_c self\<rparr>
      | PInt n \<Rightarrow> Inr \<lparr>real_c = of_int n * real_c self, dual_c = of_int n * dual_c self\<rparr>
      | PDual w \<Rightarrow> Inr \<lparr>real_c = real_c self * real_c w,
                         dual_c = real_c self * dual_c w + dual_c self * real_c w\<rparr>
      | _ \<Rightarrow> Inl TypeError)"

text \<open>
  \<^verbatim>\<open>__sub__\<close> is \<^verbatim>\<open>self.__add__(other*(-1))\<close>: the product is taken by the other operand's
  own multiplication; an operand that is neither a number nor a \<^verbatim>\<open>DualNumber\<close> ends in the
  \<^verbatim>\<open>TypeError\<close> of \<^verbatim>\<open>__add__\<close> (or of the product itself).
\<close>

definition DualNumber_sub :: "DualNumber \<Rightarrow> pyval \<Rightarrow> error + DualNumber" where
  "DualNumber_sub self other =
     (case other of
        PNum c \<Rightarrow> DualNumber_add self (PNum (c * (- 1)))
      | PInt n \<Rightarrow> DualNumber_add self (PInt (n * (- 1)))
      | PDual w \<Rightarrow> bindE (DualNumber_mul w (PNum (- 1))) (\<lambda>m. DualNumber_add self (PDual m))
      | _ \<Rightarrow> Inl TypeError)"

definition DualNumber_truediv :: "DualNumber \<Rightarrow> pyval \<Rightarrow> error + DualNumber" where
  "DualNumber_truediv self other =
     (case other of
        PNum c \<Rightarrow>
          bindE (py_div (real_c self) c) (\<lambda>q.
          bindE (py_div (dual_c self) c) (\<lambda>q'.
          Inr \<lparr>real_c = q, dual_c = q'\<rparr>))
      | PInt n \<Rightarrow>
          bindE (py_div (real_c self) (of_int n)) (\<lambda>q.
          bindE (py_div (dual_c self) (of_int n)) (\<lambda>q'.
          Inr \<lparr>real_c = q, dual_c = q'\<rparr>))
      | PDual w \<Rightarrow>
          bindE (py_div (real_c self) (real_c w)) (\<lambda>q.
          bindE (py_pow (real_c w) 2) (\<lambda>b2.
          bindE (py_div (dual_c self * real_c w - real_c self * dual_c w) b2) (\<lambda>q'.
          Inr \<lparr>real_c = q, dual_c = q'\<rparr>)))
      | _ \<Rightarrow> Inl TypeError)"

text \<open>
  \<^verbatim>\<open>__pow__\<close>. With a \<^verbatim>\<open>DualNumber\<close> exponent the power \<^verbatim>\<open>self.real**other.real\<close> is
  multiplied by a sum that holds \<^verbatim>\<open>np.log(self.real)\<close>, a float: a power that is a float
  is out of range already in \<^verbatim>\<open>**\<close>, and a power that is an exact \<^verbatim>\<open>int\<close> is converted by
  the product; either way a power beyond the largest double raises \<^verbatim>\<open>OverflowError\<close>.
  With a number as the exponent no float need be involved, and the power of two
  \<^verbatim>\<open>int\<close>s is exact whatever its size: no bound is put on it there.
\<close>

definition DualNumber_pow :: "DualNumber \<Rightarrow> pyval \<Rightarrow> error + DualNumber" where
  "DualNumber_pow self other =
     (case other of
        PNum p \<Rightarrow>
          bindE (py_pow (real_c self) p) (\<lambda>v.
          bindE (py_pow (real_c self) (p - 1)) (\<lambda>v1.
          Inr \<lparr>real_c = v, dual_c = p * v1 * dual_c self\<rparr>))
      | PInt n \<Rightarrow>
          bindE (py_pow (real_c self) (of_int n)) (\<lambda>v.
          bindE (py_pow (real_c self) (of_int n - 1)) (\<lambda>v1.
          Inr \<lparr>real_c = v, dual_c = of_int n * v1 * dual_c self\<rparr>))
      | PDual w \<Rightarrow>
          bindE (py_pow (real_c self) (real_c w)) (\<lambda>p.
          bindE (as_float p) (\<lambda>v.
          bindE (py_div (dual_c self * real_c w) (real_c self)) (\<lambda>q.
          Inr \<lparr>real_c = v, dual_c = v * (dual_c w * np_log (real_c self) + q)\<rparr>)))
      | _ \<Rightarrow> Inl TypeError)"

definition DualNumber_radd :: "DualNumber \<Rightarrow> pyval \<Rightarrow> error + DualNumber" where
  "DualNumber_radd self other = DualNumber_add self other"

text \<open>\<^verbatim>\<open>__rsub__\<close> is \<^verbatim>\<open>(-1*self).__add__(other)\<close>, and \<^verbatim>\<open>-1*self\<close> is \<^verbatim>\<open>self.__rmul__(-1)\<close>.\<close>

definition DualNumber_rmul :: "DualNumber \<Rightarrow> pyval \<Rightarrow> error + DualNumber" where
  "DualNumber_rmul self other = DualNumber_mul self other"

definition DualNumber_rsub :: "DualNumber \<Rightarrow> pyval \<Rightarrow> error + DualNumber" where
  "DualNumber_rsub self other =
     bindE (DualNumber_rmul self (PNum (- 1))) (\<lambda>m. DualNumber_add m other)"

definition DualNumber_rtruediv :: "DualNumber \<Rightarrow> pyval \<Rightarrow> error + DualNumber" where
  "DualNumber_rtruediv self other =
     (case other of
        PNum c \<Rightarrow>
          bindE (py_div c (real_c self)) (\<lambda>q.
          bindE (py_pow (real_c self) 2) (\<lambda>a2.
          bindE (py_div (- c * dual_c self) a2) (\<lambda>q'.
          Inr \<lparr>real_c = q, dual_c = q'\<rparr>)))
      | PInt n \<Rightarrow>
          bindE (py_div (of_int n) (real_c self)) (\<lambda>q.
          bindE (py_pow (real_c self) 2) (\<lambda>a2.
          bindE (py_div (- of_int n * dual_c self) a2) (\<lambda>q'.
          Inr \<lparr>real_c = q, dual_c = q'\<rparr>)))
      | _ \<Rightarrow> Inl TypeError)"

definition DualNumber_rpow :: "DualNumber \<Rightarrow> pyval \<Rightarrow> error + DualNumber" where
  "DualNumber_rpow self other =
     (case other of
        PNum c \<Rightarrow>
          bindE (py_pow c (real_c self)) (\<lambda>v.
          Inr \<lparr>real_c = v, dual_c = v * dual_c self * np_log c\<rparr>)
      | PInt n \<Rightarrow>
          bindE (py_pow (of_int n) (real_c self)) (\<lambda>v.
          if numpy_converts n then Inr \<lparr>real_c = v, dual_c = v * dual_c self * np_log (of_int n)\<rparr>
          else Inl TypeError)
      | _ \<Rightarrow> Inl TypeError)"

definition DualNumber_eq :: "DualNumber \<Rightarrow> pyval \<Rightarrow> error + bool" where
  "DualNumber_eq self other =
     (case other of
        PDual w \<Rightarrow> Inr (real_c self = real_c w \<and> dual_c self = dual_c w)
      | _ \<Rightarrow> Inl TypeError)"

definition DualNumber_ne :: "DualNumber \<Rightarrow> pyval \<Rightarrow> error + bool" where
  "DualNumber_ne self other = bindE (DualNumber_eq self other) (\<lambda>b. Inr (\<not> b))"

section \<open>rNode.py\<close>

text \<open>
  The \<^verbatim>\<open>oper\<close> string of a node. Two operators format a number into it
  (\<^verbatim>\<open>f'log_{base}'\<close> and \<^verbatim>\<open>f'{other}^'\<close>); they keep the number instead of its rendering.
\<close>

datatype opertag = Oper string | OperLogBase real | OperRpow real

text \<open>
  The closures \<^verbatim>\<open>_backward_fn\<close>, one constructor per shape: each holds the nodes it
  captured (\<^verbatim>\<open>self\<close>, \<^verbatim>\<open>other\<close>, \<^verbatim>\<open>res\<close>, or \<^verbatim>\<open>x\<close>, \<^verbatim>\<open>res\<close>) as addresses, and the
  number \<^verbatim>\<open>other\<close> for \<^verbatim>\<open>__rpow__\<close>. \<open>NoRule\<close> is the constructor's \<^verbatim>\<open>lambda: None\<close>.
\<close>

datatype binkind = KAdd | KSub | KRsub | KMul | KPow | KDiv | KRdiv

datatype unkind =
    USin | UCos | UTan | UExp | ULog | ULogBase real | UArcsin | UArccos | UArctan
  | USinh | UCosh | UTanh | ULogistic | USqrt

datatype closure =
    NoRule
  | BinRule binkind nat nat nat
  | RpowRule real nat nat
  | UnRule unkind nat nat

text \<open>
  A node. \<open>parents\<close> is the Python set in its iteration order (no duplicates); \<open>name\<close>
  is the number \<^verbatim>\<open>n\<close> of the string \<^verbatim>\<open>'v' + str(n)\<close>, which \<^verbatim>\<open>backward\<close> reads back with
  \<^verbatim>\<open>int(node.name[1:])\<close>.
\<close>

record rNode =
  val :: real
  der :: real
  backward_func :: closure
  oper :: opertag
  parents :: "nat list"
  name :: nat

text \<open>
  The objects are kept in a heap, a node's address being its position; \<open>increment\<close> is
  the class attribute \<^verbatim>\<open>rNode.increment\<close>.
\<close>

record state =
  heap :: "rNode list"
  increment :: nat

definition rNode_init :: "real \<Rightarrow> nat list \<Rightarrow> opertag \<Rightarrow> state \<Rightarrow> nat \<times> state" where
  "rNode_init v ps tag st =
     (length (heap st),
      st\<lparr>heap := heap st @
             [\<lparr>val = v, der = 0, backward_func = NoRule, oper = tag,
               parents = remdups ps, name = increment st\<rparr>],
         increment := increment st + 1\<rparr>)"

definition set_backward_func :: "nat \<Rightarrow> closure \<Rightarrow> state \<Rightarrow> state" where
  "set_backward_func a f st = st\<lparr>heap := (heap st)[a := (heap st ! a)\<lparr>backward_func := f\<rparr>]\<rparr>"

text \<open>
  \<^verbatim>\<open>if not isinstance(other, (int, float, rNode)): raise TypeError\<close>, then
  \<^verbatim>\<open>if isinstance(other, (int, float)): other = rNode(other)\<close>.
\<close>

definition coerce :: "pyval \<Rightarrow> state \<Rightarrow> (error + nat) \<times> state" where
  "coerce other st =
     (case other of
        PNum c \<Rightarrow> (case rNode_init c [] (Oper []) st of (a, st') \<Rightarrow> (Inr a, st'))
      | PInt n \<Rightarrow> (case rNode_init (of_int n) [] (Oper []) st of (a, st') \<Rightarrow> (Inr a, st'))
      | PNode a \<Rightarrow> (Inr a, st)
      | _ \<Rightarrow> (Inl TypeError, st))"

text \<open>The reflected operators accept a number only, and always wrap it.\<close>

definition coerce_num :: "pyval \<Rightarrow> state \<Rightarrow> (error + nat) \<times> state" where
  "coerce_num other st =
     (case other of
        PNum c \<Rightarrow> (case rNode_init c [] (Oper []) st of (a, st') \<Rightarrow> (Inr a, st'))
      | PInt n \<Rightarrow> (case rNode_init (of_int n) [] (Oper []) st of (a, st') \<Rightarrow> (Inr a, st'))
      | _ \<Rightarrow> (Inl TypeError, st))"

text \<open>
  The common tail of the two-operand operators: \<^verbatim>\<open>res = rNode(v, (self, other), tag)\<close>,
  \<^verbatim>\<open>res.backward_func = _backward_fn\<close>, \<^verbatim>\<open>return res\<close>; the value \<open>v\<close> may have raised.
\<close>

definition binary_result ::
  "error + real \<Rightarrow> binkind \<Rightarrow> string \<Rightarrow> nat \<Rightarrow> nat \<Rightarrow> state \<Rightarrow> (error + nat) \<times> state" where
  "binary_result v k tag self other st =
     (case v of
        Inl e \<Rightarrow> (Inl e, st)
      | Inr x \<Rightarrow>
          (case rNode_init x [self, other] (Oper tag) st of
             (res, st') \<Rightarrow> (Inr res, set_backward_func res (BinRule k self other res) st')))"

definition rNode_add :: "nat \<Rightarrow> pyval \<Rightarrow> state \<Rightarrow> (error + nat) \<times> state" where
  "rNode_add self other st =
     (case coerce other st of
        (Inl e, st1) \<Rightarrow> (Inl e, st1)
      | (Inr ot, st1) \<Rightarrow>
          binary_result (Inr (val (heap st1 ! self) + val (heap st1 ! ot))) KAdd ''+'' self ot st1)"

definition rNode_radd :: "nat \<Rightarrow> pyval \<Rightarrow> state \<Rightarrow> (error + nat) \<times> state" where
  "rNode_radd self other st = rNode_add self other st"

definition rNode_sub :: "nat \<Rightarrow> pyval \<Rightarrow> state \<Rightarrow> (error + nat) \<times> state" where
  "rNode_sub self other st =
     (case coerce other st of
        (Inl e, st1) \<Rightarrow> (Inl e, st1)
      | (Inr ot, st1) \<Rightarrow>
          binary_result (Inr (val (heap st1 ! self) - val (heap st1 ! ot))) KSub ''-'' self ot st1)"

definition rNode_rsub :: "nat \<Rightarrow> pyval \<Rightarrow> state \<Rightarrow> (error + nat) \<times> state" where
  "rNode_rsub self other st =
     (case coerce_num other st of
        (Inl e, st1) \<Rightarrow> (Inl e, st1)
      | (Inr ot, st1) \<Rightarrow>
          binary_result (Inr (val (heap st1 ! ot) - val (heap st1 ! self))) KRsub ''-'' self ot st1)"

definition rNode_mul :: "nat \<Rightarrow> pyval \<Rightarrow> state \<Rightarrow> (error + nat) \<times> state" where
  "rNode_mul self other st =
     (case coerce other st of
        (Inl e, st1) \<Rightarrow> (Inl e, st1)
      | (Inr ot, st1) \<Rightarrow>
          binary_result (Inr (val (heap st1 ! self) * val (heap st1 ! ot))) KMul ''x'' self ot st1)"

definition rNode_rmul :: "nat \<Rightarrow> pyval \<Rightarrow> state \<Rightarrow> (error + nat) \<times> state" where
  "rNode_rmul self other st = rNode_mul self other st"

definition rNode_neg :: "nat \<Rightarrow> state \<Rightarrow> (error + nat) \<times> state" where
  "rNode_neg self st = rNode_mul self (PNum (- 1)) st"

definition rNode_pow :: "nat \<Rightarrow> pyval \<Rightarrow> state \<Rightarrow> (error + nat) \<times> state" where
  "rNode_pow self other st =
     (case coerce other st of
        (Inl e, st1) \<Rightarrow> (Inl e, st1)
      | (Inr ot, st1) \<Rightarrow>
          binary_result (py_pow (val (heap st1 ! self)) (val (heap st1 ! ot))) KPow ''^'' self ot st1)"

text \<open>\<^verbatim>\<open>__rpow__\<close> wraps nothing: the result's only parent is \<^verbatim>\<open>self\<close>.\<close>

definition rNode_rpow :: "nat \<Rightarrow> pyval \<Rightarrow> state \<Rightarrow> (error + nat) \<times> state" where
  "rNode_rpow self other st =
     (case other of
        PNum c \<Rightarrow>
          (case py_pow c (val (heap st ! self)) of
             Inl e \<Rightarrow> (Inl e, st)
           | Inr x \<Rightarrow>
               (case rNode_init x [self] (OperRpow c) st of
                  (res, st') \<Rightarrow> (Inr res, set_backward_func res (RpowRule c self res) st')))
      | PInt n \<Rightarrow>
          (case py_pow (of_int n) (val (heap st ! self)) of
             Inl e \<Rightarrow> (Inl e, st)
           | Inr x \<Rightarrow>
               (case rNode_init x [self] (OperRpow (of_int n)) st of
                  (res, st') \<Rightarrow>
                    (Inr res, set_backward_func res (RpowRule (of_int n) self res) st')))
      | _ \<Rightarrow> (Inl TypeError, st))"

definition rNode_truediv :: "nat \<Rightarrow> pyval \<Rightarrow> state \<Rightarrow> (error + nat) \<times> state" where
  "rNode_truediv self other st =
     (case coerce other st of
        (Inl e, st1) \<Rightarrow> (Inl e, st1)
      | (Inr ot, st1) \<Rightarrow>
          binary_result (py_div (val (heap st1 ! self)) (val (heap st1 ! ot))) KDiv ''/'' self ot st1)"

definition rNode_rtruediv :: "nat \<Rightarrow> pyval \<Rightarrow> state \<Rightarrow> (error + nat) \<times> state" where
  "rNode_rtruediv self other st =
     (case coerce_num other st of
        (Inl e, st1) \<Rightarrow> (Inl e, st1)
      | (Inr ot, st1) \<Rightarrow>
          binary_result (py_div (val (heap st1 ! ot)) (val (heap st1 ! self))) KRdiv ''/'' self ot st1)"

subsection \<open>The backward closures\<close>

text \<open>\<^verbatim>\<open>node.der += d\<close> on the node at address \<open>a\<close>.\<close>

definition add_der :: "nat \<Rightarrow> real \<Rightarrow> rNode list \<Rightarrow> rNode list" where
  "add_der a d h = h[a := (h ! a)\<lparr>der := der (h ! a) + d\<rparr>]"

text \<open>
  The factor of \<^verbatim>\<open>res.der\<close> in the closure of each elementary function of operators.py,
  at \<^verbatim>\<open>x.val = v\<close>, as the source writes it. The divisions here are NumPy's (a zero
  divisor gives \<^verbatim>\<open>inf\<close> with a warning, no exception); they are HOL's total division.
\<close>

fun node_factor :: "unkind \<Rightarrow> real \<Rightarrow> real" where
  "node_factor USin v = cos v"
| "node_factor UCos v = - sin v"
| "node_factor UTan v = 1 / (cos v)\<^sup>2"
| "node_factor UExp v = exp v"
| "node_factor ULog v = 1 / v"
| "node_factor (ULogBase b) v = 1 / (v * np_log b)"
| "node_factor UArcsin v = 1 / sqrt (1 - v\<^sup>2)"
| "node_factor UArccos v = - 1 / sqrt (1 - v\<^sup>2)"
| "node_factor UArctan v = 1 / (1 + v\<^sup>2)"
| "node_factor USinh v = cosh v"
| "node_factor UCosh v = sinh v"
| "node_factor UTanh v = 1 / (cosh v)\<^sup>2"
| "node_factor ULogistic v = exp v / (exp v + 1)\<^sup>2"
| "node_factor USqrt v = 1 / (2 * sqrt v)"

text \<open>
  Calling \<^verbatim>\<open>node.backward_func()\<close>: the statements of the closure in their order, each
  reading the heap the one before it left.
\<close>

fun run_closure :: "closure \<Rightarrow> rNode list \<Rightarrow> error + rNode list" where
  "run_closure NoRule h = Inr h"
| "run_closure (BinRule KAdd self other res) h =
     (let h1 = add_der self (1 * der (h ! res)) h
      in Inr (add_der other (1 * der (h1 ! res)) h1))"
| "run_closure (BinRule KSub self other res) h =
     (let h1 = add_der self (1 * der (h ! res)) h
      in Inr (add_der other (- 1 * der (h1 ! res)) h1))"
| "run_closure (BinRule KRsub self other res) h =
     (let h1 = add_der self (- 1 * der (h ! res)) h
      in Inr (add_der other (1 * der (h1 ! res)) h1))"
| "run_closure (BinRule KMul self other res) h =
     (let h1 = add_der self (val (h ! other) * der (h ! res)) h
      in Inr (add_der other (val (h1 ! self) * der (h1 ! res)) h1))"
| "run_closure (BinRule KPow self other res) h =
     bindE (py_pow (val (h ! self)) (val (h ! other) - 1)) (\<lambda>p1.
       let h1 = add_der self ((val (h ! other) * p1) * der (h ! res)) h
       in bindE (py_pow (val (h1 ! self)) (val (h1 ! other))) (\<lambda>p.
            Inr (add_der other ((p * np_log (val (h1 ! self))) * der (h1 ! res)) h1)))"
| "run_closure (BinRule KDiv self other res) h =
     bindE (py_div 1 (val (h ! other))) (\<lambda>q.
       let h1 = add_der self (q * der (h ! res)) h
       in bindE (py_pow (val (h1 ! other)) 2) (\<lambda>b2.
          bindE (py_div (- val (h1 ! self)) b2) (\<lambda>q'.
            Inr (add_der other (q' * der (h1 ! res)) h1))))"
| "run_closure (BinRule KRdiv self other res) h =
     bindE (py_pow (val (h ! self)) 2) (\<lambda>a2.
     bindE (py_div (- val (h ! other)) a2) (\<lambda>q.
       let h1 = add_der self (q * der (h ! res)) h
       in bindE (py_div 1 (val (h1 ! self))) (\<lambda>q'.
            Inr (add_der other (q' * der (h1 ! res)) h1))))"
| "run_closure (RpowRule c self res) h =
     bindE (py_pow c (val (h ! self))) (\<lambda>p.
       Inr (add_der self ((p * np_log c) * der (h ! res)) h))"
| "run_closure (UnRule f x res) h =
     Inr (add_der x (node_factor f (val (h ! x)) * der (h ! res)) h)"

subsection \<open>Topological sort and backward pass\<close>

text \<open>
  \<^verbatim>\<open>_sort_nodes\<close>: the inner \<^verbatim>\<open>toposort(node)\<close> with its two captured variables
  \<^verbatim>\<open>topo_sorted\<close> and \<^verbatim>\<open>visited_nodes\<close> passed through; \<open>toposort_parents\<close> is the loop
  \<^verbatim>\<open>for parent_node in node.parents\<close>. An address outside the heap is no object, and
  nothing is visited through it.
\<close>

function toposort :: "rNode list \<Rightarrow> nat \<Rightarrow> nat list \<times> nat set \<Rightarrow> nat list \<times> nat set"
  and toposort_parents :: "rNode list \<Rightarrow> nat list \<Rightarrow> nat list \<times> nat set \<Rightarrow> nat list \<times> nat set" where
  "toposort h node (topo_sorted, visited_nodes) =
     (if node \<in> visited_nodes \<or> \<not> node < length h then (topo_sorted, visited_nodes)
      else (case toposort_parents h (parents (h ! node)) (topo_sorted, insert node visited_nodes) of
              (ts, vs) \<Rightarrow> (ts @ [node], vs)))"
| "toposort_parents h [] acc = acc"
| "toposort_parents h (p # ps) acc = toposort_parents h ps (toposort h p acc)"
  by pat_completeness auto

lemma toposort_dom_visited_mono:
  "toposort_toposort_parents_dom (Inl (h, n, acc)) \<Longrightarrow> snd acc \<subseteq> snd (toposort h n acc)"
  "toposort_toposort_parents_dom (Inr (h, ps, acc)) \<Longrightarrow> snd acc \<subseteq> snd (toposort_parents h ps acc)"
proof (induction h n acc and h ps acc rule: toposort_toposort_parents.pinduct)
  case (1 h node topo_sorted visited_nodes)
  then show ?case
    by (auto simp: toposort.psimps split: prod.splits)
next
  case (2 h acc)
  then show ?case by (simp add: toposort_parents.psimps)
next
  case (3 h p ps acc)
  then show ?case by (auto simp: toposort_parents.psimps)
qed

termination toposort
proof (relation "inv_image (less_than <*lex*> less_than)
    (\<lambda>x. case x of
       Inl (h, n, (t, v)) \<Rightarrow> (card ({..<length h} - v), 0::nat)
     | Inr (h, ps, (t, v)) \<Rightarrow> (card ({..<length h} - v), Suc (length ps)))", goal_cases)
  case 1
  show ?case by (intro wf_inv_image wf_lex_prod wf_less_than)
next
  case (2 h node topo_sorted visited_nodes)
  then have "{..<length h} - insert node visited_nodes \<subset> {..<length h} - visited_nodes"
    by auto
  then have "card ({..<length h} - insert node visited_nodes) < card ({..<length h} - visited_nodes)"
    by (intro psubset_card_mono) auto
  then show ?case by simp
next
  case (3 h p ps acc)
  then show ?case by (cases acc) auto
next
  case (4 h p ps acc)
  from toposort_dom_visited_mono(1)[OF 4] have "snd acc \<subseteq> snd (toposort h p acc)" .
  then have "card ({..<length h} - snd (toposort h p acc)) \<le> card ({..<length h} - snd acc)"
    by (intro card_mono) auto
  then show ?case by (cases acc; cases "toposort h p acc") auto
qed

definition sort_nodes :: "rNode list \<Rightarrow> nat \<Rightarrow> nat list" where
  "sort_nodes h self = fst (toposort h self ([], {}))"

text \<open>
  \<^verbatim>\<open>backward(num_inputs)\<close>. The first loop zeroes the adjoints; the second walks
  \<^verbatim>\<open>reversed(topo_order)\<close>, writing \<^verbatim>\<open>node.der\<close> into \<^verbatim>\<open>jacobian_row\<close> when the number in
  the node's name is below \<^verbatim>\<open>num_inputs\<close> and then calling the node's closure. A closure
  that raises ends the pass.
\<close>

definition set_der :: "nat \<Rightarrow> real \<Rightarrow> rNode list \<Rightarrow> rNode list" where
  "set_der a d h = h[a := (h ! a)\<lparr>der := d\<rparr>]"

fun zero_adjoints :: "nat list \<Rightarrow> rNode list \<Rightarrow> rNode list" where
  "zero_adjoints [] h = h"
| "zero_adjoints (node # rest) h = zero_adjoints rest (set_der node 0 h)"

fun backward_walk ::
  "nat \<Rightarrow> nat list \<Rightarrow> real list \<Rightarrow> rNode list \<Rightarrow> error + real list \<times> rNode list" where
  "backward_walk num_inputs [] jacobian_row h = Inr (jacobian_row, h)"
| "backward_walk num_inputs (node # rest) jacobian_row h =
     (let row' = (if name (h ! node) < num_inputs
                  then jacobian_row[name (h ! node) := der (h ! node)]
                  else jacobian_row)
      in case run_closure (backward_func (h ! node)) h of
           Inl e \<Rightarrow> Inl e
         | Inr h' \<Rightarrow> backward_walk num_inputs rest row' h')"

definition backward :: "nat \<Rightarrow> nat \<Rightarrow> rNode list \<Rightarrow> error + real list \<times> rNode list" where
  "backward self num_inputs h =
     (let topo_order = sort_nodes h self;
          h1 = zero_adjoints topo_order h;
          h2 = set_der self 1 h1
      in backward_walk num_inputs (rev topo_order) (replicate num_inputs 0) h2)"

text \<open>
  \<^verbatim>\<open>graph_object\<close>: the inner \<^verbatim>\<open>build(node)\<close> with the sets \<^verbatim>\<open>nodes\<close> and \<^verbatim>\<open>edges\<close> passed
  through; \<open>build_parents\<close> is the loop \<^verbatim>\<open>for parent in node.parents\<close>.
\<close>

function build :: "rNode list \<Rightarrow> nat \<Rightarrow> nat set \<times> (nat \<times> nat) set \<Rightarrow> nat set \<times> (nat \<times> nat) set"
  and build_parents ::
    "rNode list \<Rightarrow> nat \<Rightarrow> nat list \<Rightarrow> nat set \<times> (nat \<times> nat) set \<Rightarrow> nat set \<times> (nat \<times> nat) set" where
  "build h node (nodes, edges) =
     (if node \<in> nodes \<or> \<not> node < length h then (nodes, edges)
      else build_parents h node (parents (h ! node)) (insert node nodes, edges))"
| "build_parents h node [] acc = acc"
| "build_parents h node (parent # rest) (nodes, edges) =
     build_parents h node rest (build h parent (nodes, insert (parent, node) edges))"
  by pat_completeness auto

lemma build_dom_nodes_mono:
  "build_build_parents_dom (Inl (h, n, acc)) \<Longrightarrow> fst acc \<subseteq> fst (build h n acc)"
  "build_build_parents_dom (Inr (h, n, ps, acc)) \<Longrightarrow> fst acc \<subseteq> fst (build_parents h n ps acc)"
proof (induction h n acc and h n ps acc rule: build_build_parents.pinduct)
  case (1 h node nodes edges)
  then show ?case by (auto simp: build.psimps)
next
  case (2 h node acc)
  then show ?case by (simp add: build_parents.psimps)
next
  case (3 h node parent rest nodes edges)
  then show ?case by (auto simp: build_parents.psimps)
qed

termination build
proof (relation "inv_image (less_than <*lex*> less_than)
    (\<lambda>x. case x of
       Inl (h, n, (ns, es)) \<Rightarrow> (card ({..<length h} - ns), 0::nat)
     | Inr (h, n, ps, (ns, es)) \<Rightarrow> (card ({..<length h} - ns), Suc (length ps)))", goal_cases)
  case 1
  show ?case by (intro wf_inv_image wf_lex_prod wf_less_than)
next
  case (2 h node nodes edges)
  then have "{..<length h} - insert node nodes \<subset> {..<length h} - nodes"
    by auto
  then have "card ({..<length h} - insert node nodes) < card ({..<length h} - nodes)"
    by (intro psubset_card_mono) auto
  then show ?case by simp
next
  case (3 h node parent rest nodes edges)
  then show ?case by simp
next
  case (4 h node parent rest nodes edges)
  from build_dom_nodes_mono(1)[OF 4]
  have "nodes \<subseteq> fst (build h parent (nodes, insert (parent, node) edges))" by simp
  then have "card ({..<length h} - fst (build h parent (nodes, insert (parent, node) edges)))
      \<le> card ({..<length h} - nodes)"
    by (intro card_mono) auto
  then show ?case by (cases "build h parent (nodes, insert (parent, node) edges)") auto
qed

definition graph_object :: "rNode list \<Rightarrow> nat \<Rightarrow> nat set \<times> (nat \<times> nat) set" where
  "graph_object h self = build h self ({}, {})"

section \<open>operators.py\<close>

text \<open>
  The fourteen elementary functions have one shape: reject an argument that is not a
  number, a \<^verbatim>\<open>DualNumber\<close> or an \<^verbatim>\<open>rNode\<close>; on a number, check the domain and apply the
  NumPy function; on an \<^verbatim>\<open>rNode\<close>, check the domain on \<^verbatim>\<open>x.val\<close>, create the result node
  with parent \<^verbatim>\<open>x\<close> and install the closure; on a \<^verbatim>\<open>DualNumber\<close>, check the domain on
  \<^verbatim>\<open>x.real\<close> and return the value with its derivative. The tables below give, function
  by function, the condition under which the source raises \<^verbatim>\<open>ValueError\<close>, the value, the
  dual component and the \<^verbatim>\<open>oper\<close> string.
\<close>

fun domain_error :: "unkind \<Rightarrow> real \<Rightarrow> bool" where
  "domain_error ULog a = (a \<le> 0)"
| "domain_error (ULogBase b) a = (a \<le> 0)"
| "domain_error UArcsin a = (a < - 1 \<or> a > 1)"
| "domain_error UArccos a = (a < - 1 \<or> a > 1)"
| "domain_error USqrt a = (a < 0)"
| "domain_error f a = False"

fun np_value :: "unkind \<Rightarrow> real \<Rightarrow> real" where
  "np_value USin a = sin a"
| "np_value UCos a = cos a"
| "np_value UTan a = tan a"
| "np_value UExp a = exp a"
| "np_value ULog a = np_log a"
| "np_value (ULogBase b) a = np_log a / np_log b"
| "np_value UArcsin a = arcsin a"
| "np_value UArccos a = arccos a"
| "np_value UArctan a = arctan a"
| "np_value USinh a = sinh a"
| "np_value UCosh a = cosh a"
| "np_value UTanh a = tanh a"
| "np_value ULogistic a = 1 / (1 + exp (- a))"
| "np_value USqrt a = sqrt a"

fun dual_value :: "unkind \<Rightarrow> real \<Rightarrow> real \<Rightarrow> real" where
  "dual_value USin a a' = a' * cos a"
| "dual_value UCos a a' = - a' * sin a"
| "dual_value UTan a a' = a' / (cos a)\<^sup>2"
| "dual_value UExp a a' = a' * exp a"
| "dual_value ULog a a' = a' / a"
| "dual_value (ULogBase b) a a' = a' / (np_log b * a)"
| "dual_value UArcsin a a' = a' / sqrt (1 - a\<^sup>2)"
| "dual_value UArccos a a' = - a' / sqrt (1 - a\<^sup>2)"
| "dual_value UArctan a a' = a' / (1 + a\<^sup>2)"
| "dual_value USinh a a' = a' * cosh a"
| "dual_value UCosh a a' = a' * sinh a"
| "dual_value UTanh a a' = a' / (cosh a)\<^sup>2"
| "dual_value ULogistic a a' = a' * exp a / (exp a + 1)\<^sup>2"
| "dual_value USqrt a a' = a' / (2 * sqrt a)"

fun oper_of :: "unkind \<Rightarrow> opertag" where
  "oper_of USin = Oper ''sin''"
| "oper_of UCos = Oper ''cos''"
| "oper_of UTan = Oper ''tan''"
| "oper_of UExp = Oper ''exp''"
| "oper_of ULog = Oper ''log''"
| "oper_of (ULogBase b) = OperLogBase b"
| "oper_of UArcsin = Oper ''arcsin''"
| "oper_of UArccos = Oper ''arccos''"
| "oper_of UArctan = Oper ''arctan''"
| "oper_of USinh = Oper ''sinh''"
| "oper_of UCosh = Oper ''cosh''"
| "oper_of UTanh = Oper ''tanh''"
| "oper_of ULogistic = Oper ''logistic''"
| "oper_of USqrt = Oper ''sqrt''"


text \<open>
  What NumPy is called on: \<^verbatim>\<open>logistic\<close> calls \<^verbatim>\<open>np.exp(-x)\<close>, the others call their
  function on \<^verbatim>\<open>x\<close> itself.
\<close>

fun numpy_argument :: "unkind \<Rightarrow> int \<Rightarrow> int" where
  "numpy_argument ULogistic n = - n"
| "numpy_argument f n = n"

definition elementary :: "unkind \<Rightarrow> pyval \<Rightarrow> state \<Rightarrow> (error + pyval) \<times> state" where
  "elementary f x st =
     (case x of
        POther \<Rightarrow> (Inl TypeError, st)
      | PNum a \<Rightarrow>
          if domain_error f a then (Inl (ValueError DomainError), st) else (Inr (PNum (np_value f a)), st)
      | PInt n \<Rightarrow>
          if domain_error f (of_int n) then (Inl (ValueError DomainError), st)
          else if numpy_converts (numpy_argument f n) then (Inr (PNum (np_value f (of_int n))), st)
          else (Inl TypeError, st)
      | PNode n \<Rightarrow>
          if domain_error f (val (heap st ! n)) then (Inl (ValueError DomainError), st)
          else (case rNode_init (np_value f (val (heap st ! n))) [n] (oper_of f) st of
                  (res, st') \<Rightarrow> (Inr (PNode res), set_backward_func res (UnRule f n res) st'))
      | PDual z \<Rightarrow>
          if domain_error f (real_c z) then (Inl (ValueError DomainError), st)
          else (Inr (PDual \<lparr>real_c = np_value f (real_c z),
                             dual_c = dual_value f (real_c z) (dual_c z)\<rparr>), st))"

definition sin_op :: "pyval \<Rightarrow> state \<Rightarrow> (error + pyval) \<times> state" where
  "sin_op = elementary USin"

definition cos_op :: "pyval \<Rightarrow> state \<Rightarrow> (error + pyval) \<times> state" where
  "cos_op = elementary UCos"

definition tan_op :: "pyval \<Rightarrow> state \<Rightarrow> (error + pyval) \<times> state" where
  "tan_op = elementary UTan"

definition exp_op :: "pyval \<Rightarrow> state \<Rightarrow> (error + pyval) \<times> state" where
  "exp_op = elementary UExp"





definition arctan_op :: "pyval \<Rightarrow> state \<Rightarrow> (error + pyval) \<times> state" where
  "arctan_op = elementary UArctan"

definition sinh_op :: "pyval \<Rightarrow> state \<Rightarrow> (error + pyval) \<times> state" where
  "sinh_op = elementary USinh"

definition cosh_op :: "pyval \<Rightarrow> state \<Rightarrow> (error + pyval) \<times> state" where
  "cosh_op = elementary UCosh"

definition tanh_op :: "pyval \<Rightarrow> state \<Rightarrow> (error + pyval) \<times> state" where
  "tanh_op = elementary UTanh"

definition logistic :: "pyval \<Rightarrow> state \<Rightarrow> (error + pyval) \<times> state" where
  "logistic = elementary ULogistic"


section \<open>func.py\<close>

text \<open>
  What the wrapped function returns: one object, or a tuple of objects. The function
  itself is any Python callable: it takes its arguments and the state and returns a
  result or raises, with the state it left.
\<close>

datatype pyret = Single pyval | Tuple "pyval list"

type_synonym pyfun = "pyval list \<Rightarrow> state \<Rightarrow> (error + pyret) \<times> state"

record Func =
  func :: pyfun
  num_inputs :: nat
  num_outputs :: nat

text \<open>
  \<^verbatim>\<open>Func.__init__\<close>: both arities are asserted to be positive integers (that they are
  integers is their type here).
\<close>

definition Func_init :: "pyfun \<Rightarrow> int \<Rightarrow> int \<Rightarrow> error + Func" where
  "Func_init function n m =
     (if \<not> 0 < n then Inl AssertionError
      else if \<not> 0 < m then Inl AssertionError
      else Inr \<lparr>func = function, num_inputs = nat n, num_outputs = nat m\<rparr>)"

text \<open>
  A \<^verbatim>\<open>point\<close> or \<^verbatim>\<open>seed_vector\<close> argument: a number, a list or array, or anything else.
\<close>

datatype pyarg = ArgNum real | ArgList "pyval list" | ArgOther

text \<open>
  \<^verbatim>\<open>if isinstance(point, (int, float)): point = [point]\<close>, then
  \<^verbatim>\<open>assert isinstance(point, (list, np.ndarray))\<close>.
\<close>

definition as_point :: "pyarg \<Rightarrow> error + pyval list" where
  "as_point point =
     (case point of
        ArgNum c \<Rightarrow> Inr [PNum c]
      | ArgList xs \<Rightarrow> Inr xs
      | ArgOther \<Rightarrow> Inl AssertionError)"

text \<open>
  \<^verbatim>\<open>__call__\<close> returns \<^verbatim>\<open>self.func(*point)\<close> as it is when \<^verbatim>\<open>num_outputs == 1\<close>, and
  \<^verbatim>\<open>np.array(self.func(*point))\<close> otherwise.
\<close>

datatype callres = Returned pyret | Array pyret

definition Func_call :: "Func \<Rightarrow> pyarg \<Rightarrow> state \<Rightarrow> (error + callres) \<times> state" where
  "Func_call F point st =
     (case as_point point of
        Inl e \<Rightarrow> (Inl e, st)
      | Inr pt \<Rightarrow>
          if length pt \<noteq> num_inputs F then (Inl (ValueError DimensionMismatch), st)
          else (case func F pt st of
                  (Inl e, st') \<Rightarrow> (Inl e, st')
                | (Inr r, st') \<Rightarrow>
                    (Inr (if num_outputs F = 1 then Returned r else Array r), st')))"

subsection \<open>Forward mode\<close>

text \<open>\<^verbatim>\<open>identity[:, i]\<close> of \<^verbatim>\<open>np.identity(n)\<close>.\<close>

definition identity_column :: "nat \<Rightarrow> nat \<Rightarrow> real list" where
  "identity_column n i = map (\<lambda>j. if j = i then 1 else 0) [0..<n]"

text \<open>
  The inner loop of \<^verbatim>\<open>_forward\<close>: each coordinate is asserted to be a number and wrapped
  with its seed.
\<close>

fun dual_inputs :: "pyval list \<Rightarrow> real list \<Rightarrow> error + pyval list" where
  "dual_inputs [] seed = Inr []"
| "dual_inputs (p # point) seed =
     (case p of
        PNum a \<Rightarrow>
          bindE (DualNumber_init (PNum a) (PNum (hd seed))) (\<lambda>z.
          bindE (dual_inputs point (tl seed)) (\<lambda>zs. Inr (PDual z # zs)))
      | PInt n \<Rightarrow>
          bindE (DualNumber_init (PInt n) (PNum (hd seed))) (\<lambda>z.
          bindE (dual_inputs point (tl seed)) (\<lambda>zs. Inr (PDual z # zs)))
      | _ \<Rightarrow> Inl AssertionError)"

text \<open>
  Reading the result of one forward evaluation into column \<open>i\<close>. A \<^verbatim>\<open>DualNumber\<close> result
  fills the column and \<^verbatim>\<open>val[0]\<close>; anything else must have a length (a tuple has, a
  number or a node has not: \<^verbatim>\<open>TypeError\<close>) equal to \<^verbatim>\<open>num_outputs\<close>, and each of its
  elements is read through \<^verbatim>\<open>.dual\<close> and \<^verbatim>\<open>.real\<close> (an element without \<^verbatim>\<open>.dual\<close>:
  \<^verbatim>\<open>AttributeError\<close>).
\<close>

fun read_duals ::
  "nat \<Rightarrow> nat list \<Rightarrow> pyval list \<Rightarrow> real list \<times> real list list \<Rightarrow> error + real list \<times> real list list" where
  "read_duals i [] res (val_arr, jacobian) = Inr (val_arr, jacobian)"
| "read_duals i (k # ks) res (val_arr, jacobian) =
     (case res ! k of
        PDual z \<Rightarrow>
          read_duals i ks res
            (val_arr[k := real_c z], jacobian[k := (jacobian ! k)[i := dual_c z]])
      | _ \<Rightarrow> Inl AttributeError)"

definition forward_result ::
  "nat \<Rightarrow> nat \<Rightarrow> pyret \<Rightarrow> real list \<times> real list list \<Rightarrow> error + real list \<times> real list list" where
  "forward_result m i res acc =
     (case res of
        Single (PDual z) \<Rightarrow>
          if m \<noteq> 1 then Inl AssertionError
          else Inr ((fst acc)[0 := real_c z], map (\<lambda>row. row[i := dual_c z]) (snd acc))
      | Single _ \<Rightarrow> Inl TypeError
      | Tuple xs \<Rightarrow>
          if length xs \<noteq> m then Inl AssertionError
          else read_duals i [0..<m] xs acc)"

text \<open>The outer loop \<^verbatim>\<open>for i in range(self.num_inputs)\<close>.\<close>

fun forward_columns ::
  "Func \<Rightarrow> pyval list \<Rightarrow> nat list \<Rightarrow> real list \<times> real list list \<Rightarrow> state \<Rightarrow>
     (error + real list \<times> real list list) \<times> state" where
  "forward_columns F point [] acc st = (Inr acc, st)"
| "forward_columns F point (i # rest) acc st =
     (case dual_inputs point (identity_column (num_inputs F) i) of
        Inl e \<Rightarrow> (Inl e, st)
      | Inr zs \<Rightarrow>
          (case func F zs st of
             (Inl e, st') \<Rightarrow> (Inl e, st')
           | (Inr res, st') \<Rightarrow>
               (case forward_result (num_outputs F) i res acc of
                  Inl e \<Rightarrow> (Inl e, st')
                | Inr acc' \<Rightarrow> forward_columns F point rest acc' st')))"

text \<open>The value part of what \<^verbatim>\<open>_forward\<close> and \<^verbatim>\<open>_reverse\<close> return: an array, or a scalar.\<close>

datatype valres = ValArray "real list" | ValScalar real

definition Func_forward ::
  "Func \<Rightarrow> pyval list \<Rightarrow> state \<Rightarrow> (error + valres \<times> real list list) \<times> state" where
  "Func_forward F point st =
     (case forward_columns F point [0..<num_inputs F]
             (replicate (num_outputs F) 0, replicate (num_outputs F) (replicate (num_inputs F) 0)) st of
        (Inl e, st') \<Rightarrow> (Inl e, st')
      | (Inr (val_arr, jacobian), st') \<Rightarrow> (Inr (ValArray val_arr, jacobian), st'))"

subsection \<open>Reverse mode\<close>

text \<open>
  The loop \<^verbatim>\<open>for p in point: assert isinstance(p, (int, float)); zs.append(rNode(p))\<close>.
\<close>

fun node_inputs :: "pyval list \<Rightarrow> state \<Rightarrow> (error + pyval list) \<times> state" where
  "node_inputs [] st = (Inr [], st)"
| "node_inputs (p # point) st =
     (case p of
        PNum a \<Rightarrow>
          (case rNode_init a [] (Oper []) st of
             (z, st1) \<Rightarrow>
               (case node_inputs point st1 of
                  (Inl e, st2) \<Rightarrow> (Inl e, st2)
                | (Inr zs, st2) \<Rightarrow> (Inr (PNode z # zs), st2)))
      | PInt n \<Rightarrow>
          (case rNode_init (of_int n) [] (Oper []) st of
             (z, st1) \<Rightarrow>
               (case node_inputs point st1 of
                  (Inl e, st2) \<Rightarrow> (Inl e, st2)
                | (Inr zs, st2) \<Rightarrow> (Inr (PNode z # zs), st2)))
      | _ \<Rightarrow> (Inl AssertionError, st))"

text \<open>
  The first part of \<^verbatim>\<open>_reverse\<close>: the counter is reset, the inputs are wrapped in nodes
  and the function is called on them. The result comes with the input nodes.
\<close>

definition reverse_evaluate ::
  "Func \<Rightarrow> pyval list \<Rightarrow> state \<Rightarrow> (error + pyval list \<times> pyret) \<times> state" where
  "reverse_evaluate F point st =
     (case node_inputs point (st\<lparr>increment := 0\<rparr>) of
        (Inl e, st1) \<Rightarrow> (Inl e, st1)
      | (Inr zs, st1) \<Rightarrow>
          (case func F zs st1 of
             (Inl e, st2) \<Rightarrow> (Inl e, st2)
           | (Inr res, st2) \<Rightarrow> (Inr (zs, res), st2)))"

text \<open>
  The loop \<^verbatim>\<open>for i, node in enumerate(res)\<close>: one backward pass per output, each on the
  heap the one before it left; an element that is no node has no \<^verbatim>\<open>backward\<close>
  (\<^verbatim>\<open>AttributeError\<close>).
\<close>

fun backward_rows ::
  "nat \<Rightarrow> nat \<Rightarrow> pyval list \<Rightarrow> real list \<times> real list list \<Rightarrow> rNode list \<Rightarrow>
     error + (real list \<times> real list list) \<times> rNode list" where
  "backward_rows n i [] acc h = Inr (acc, h)"
| "backward_rows n i (node # rest) (val_arr, jacobian) h =
     (case node of
        PNode r \<Rightarrow>
          (case backward r n h of
             Inl e \<Rightarrow> Inl e
           | Inr (row, h') \<Rightarrow>
               backward_rows n (Suc i) rest (val_arr[i := val (h' ! r)], jacobian[i := row]) h')
      | _ \<Rightarrow> Inl AttributeError)"

definition Func_reverse ::
  "Func \<Rightarrow> pyval list \<Rightarrow> state \<Rightarrow> (error + valres \<times> real list list) \<times> state" where
  "Func_reverse F point st =
     (let n = num_inputs F; m = num_outputs F;
          jacobian = replicate m (replicate n 0);
          val_arr = replicate m 0
      in case reverse_evaluate F point st of
           (Inl e, st2) \<Rightarrow> (Inl e, st2)
         | (Inr (zs, res), st2) \<Rightarrow>
             (case res of
                Single (PNode r) \<Rightarrow>
                  if m \<noteq> 1 then (Inl AssertionError, st2)
                  else (case backward r n (heap st2) of
                          Inl e \<Rightarrow> (Inl e, st2)
                        | Inr (row, h') \<Rightarrow>
                            (Inr (ValScalar (val (h' ! r)), jacobian[0 := row]), st2\<lparr>heap := h'\<rparr>))
              | Single _ \<Rightarrow> (Inl TypeError, st2)
              | Tuple xs \<Rightarrow>
                  if length xs \<noteq> m then (Inl AssertionError, st2)
                  else (case backward_rows n 0 xs (val_arr, jacobian) (heap st2) of
                          Inl e \<Rightarrow> (Inl e, st2)
                        | Inr ((val_arr', jacobian'), h') \<Rightarrow>
                            (Inr (ValArray val_arr', jacobian'), st2\<lparr>heap := h'\<rparr>))))"

subsection \<open>The entry points\<close>

text \<open>
  What \<^verbatim>\<open>jacobian\<close> returns: the matrix, or its only entry when its shape is \<open>(1, 1)\<close>,
  alone or after the value when \<^verbatim>\<open>feval\<close> is set.
\<close>

datatype jacres = JacScalar real | JacMatrix "real list list"

definition jacobian_shape_1_1 :: "real list list \<Rightarrow> bool" where
  "jacobian_shape_1_1 j = (length j = 1 \<and> length (j ! 0) = 1)"

definition Func_jacobian ::
  "Func \<Rightarrow> pyarg \<Rightarrow> bool \<Rightarrow> bool \<Rightarrow> state \<Rightarrow> (error + valres option \<times> jacres) \<times> state" where
  "Func_jacobian F point feval reverse st =
     (case as_point point of
        Inl e \<Rightarrow> (Inl e, st)
      | Inr pt \<Rightarrow>
          if length pt \<noteq> num_inputs F then (Inl (ValueError DimensionMismatch), st)
          else (case (if \<not> reverse then Func_forward F pt st else Func_reverse F pt st) of
                  (Inl e, st') \<Rightarrow> (Inl e, st')
                | (Inr (v, jacobian), st') \<Rightarrow>
                    (Inr (if feval then Some v else None,
                          if jacobian_shape_1_1 jacobian then JacScalar (jacobian ! 0 ! 0)
                          else JacMatrix jacobian), st')))"

text \<open>
  \<^verbatim>\<open>trace\<close>: the point is promoted as elsewhere; the seed vector is asserted to be a list
  or array as it is; then the two length checks; then the inputs are wrapped (with no
  assertion here: \<^verbatim>\<open>DualNumber\<close> itself raises \<^verbatim>\<open>TypeError\<close> on a component that is no
  number) and the function is called once.
\<close>

definition as_seed :: "pyarg \<Rightarrow> error + pyval list" where
  "as_seed seed_vector =
     (case seed_vector of
        ArgList xs \<Rightarrow> Inr xs
      | _ \<Rightarrow> Inl AssertionError)"

fun trace_inputs :: "pyval list \<Rightarrow> pyval list \<Rightarrow> error + pyval list" where
  "trace_inputs [] seed = Inr []"
| "trace_inputs (p # point) seed =
     bindE (DualNumber_init p (hd seed)) (\<lambda>z.
     bindE (trace_inputs point (tl seed)) (\<lambda>zs. Inr (PDual z # zs)))"

fun read_trace ::
  "nat list \<Rightarrow> pyval list \<Rightarrow> real list \<times> real list \<Rightarrow> error + real list \<times> real list" where
  "read_trace [] res (val_arr, deriv) = Inr (val_arr, deriv)"
| "read_trace (k # ks) res (val_arr, deriv) =
     (case res ! k of
        PDual z \<Rightarrow> read_trace ks res (val_arr[k := real_c z], deriv[k := dual_c z])
      | _ \<Rightarrow> Inl AttributeError)"

definition Func_trace ::
  "Func \<Rightarrow> pyarg \<Rightarrow> pyarg \<Rightarrow> state \<Rightarrow> (error + real list \<times> real list) \<times> state" where
  "Func_trace F point seed_vector st =
     (case as_point point of
        Inl e \<Rightarrow> (Inl e, st)
      | Inr pt \<Rightarrow>
          (case as_seed seed_vector of
             Inl e \<Rightarrow> (Inl e, st)
           | Inr seed \<Rightarrow>
               if length pt \<noteq> num_inputs F then (Inl (ValueError DimensionMismatch), st)
               else if length pt \<noteq> length seed then (Inl (ValueError DimensionMismatch), st)
               else (case trace_inputs pt seed of
                       Inl e \<Rightarrow> (Inl e, st)
                     | Inr zs \<Rightarrow>
                         (case func F zs st of
                            (Inl e, st') \<Rightarrow> (Inl e, st')
                          | (Inr res, st') \<Rightarrow>
                              (let m = num_outputs F;
                                   acc = (replicate m 0, replicate m 0)
                               in case res of
                                    Single (PDual z) \<Rightarrow>
                                      if m \<noteq> 1 then (Inl AssertionError, st')
                                      else (Inr ((fst acc)[0 := real_c z], (snd acc)[0 := dual_c z]), st')
                                  | Single _ \<Rightarrow> (Inl TypeError, st')
                                  | Tuple xs \<Rightarrow>
                                      if length xs \<noteq> m then (Inl AssertionError, st')
                                      else (read_trace [0..<m] xs acc, st'))))))"

text \<open>
  \<^verbatim>\<open>graph\<close>: the two assertions, the point as elsewhere, then the inputs are wrapped in
  nodes and the function is called on them; \<^verbatim>\<open>rNode.increment\<close> is not assigned here.
  The result must be a node; the sets of \<^verbatim>\<open>graph_object\<close> go to the renderer, which is
  not part of the model.
\<close>

definition graph_evaluate ::
  "Func \<Rightarrow> pyval list \<Rightarrow> state \<Rightarrow> (error + pyval list \<times> pyret) \<times> state" where
  "graph_evaluate F point st =
     (case node_inputs point st of
        (Inl e, st1) \<Rightarrow> (Inl e, st1)
      | (Inr zs, st1) \<Rightarrow>
          (case func F zs st1 of
             (Inl e, st2) \<Rightarrow> (Inl e, st2)
           | (Inr res, st2) \<Rightarrow> (Inr (zs, res), st2)))"

definition Func_graph ::
  "Func \<Rightarrow> pyarg \<Rightarrow> string \<Rightarrow> state \<Rightarrow> (error + nat set \<times> (nat \<times> nat) set) \<times> state" where
  "Func_graph F point graph_direction st =
     (if num_outputs F \<noteq> 1 then (Inl AssertionError, st)
      else if graph_direction \<notin> set [''LR'', ''TB''] then (Inl AssertionError, st)
      else (case as_point point of
              Inl e \<Rightarrow> (Inl e, st)
            | Inr pt \<Rightarrow>
                if length pt \<noteq> num_inputs F then (Inl (ValueError DimensionMismatch), st)
                else (case graph_evaluate F pt st of
                        (Inl e, st2) \<Rightarrow> (Inl e, st2)
                      | (Inr (zs, res), st2) \<Rightarrow>
                          (case res of
                             Single (PNode r) \<Rightarrow> (Inr (graph_object (heap st2) r), st2)
                           | _ \<Rightarrow> (Inl AssertionError, st2)))))"

section \<open>Functions built from the operators\<close>

text \<open>
  Python evaluates \<^verbatim>\<open>x + y\<close> by the left operand's method, and by the right operand's
  reflected method when the left operand is a number (whose own method returns
  \<^verbatim>\<open>NotImplemented\<close> for a \<^verbatim>\<open>DualNumber\<close> or an \<^verbatim>\<open>rNode\<close>). The methods of dualnumber.py
  and rNode.py raise \<^verbatim>\<open>TypeError\<close> themselves on an operand they do not support.
\<close>

datatype binop = Plus | Minus | Times | Divide | Power

definition num_binop :: "binop \<Rightarrow> real \<Rightarrow> real \<Rightarrow> error + real" where
  "num_binop bop a b =
     (case bop of
        Plus \<Rightarrow> Inr (a + b)
      | Minus \<Rightarrow> Inr (a - b)
      | Times \<Rightarrow> Inr (a * b)
      | Divide \<Rightarrow> py_div a b
      | Power \<Rightarrow> py_pow a b)"

text \<open>
  The operators on two Python \<^verbatim>\<open>int\<close>s: sums, differences, products and powers with an
  exponent that is not negative are exact \<^verbatim>\<open>int\<close>s; \<^verbatim>\<open>/\<close> gives a float, as does a power
  with a negative exponent, which converts both operands first.
\<close>

definition int_binop :: "binop \<Rightarrow> int \<Rightarrow> int \<Rightarrow> error + pyval" where
  "int_binop bop n m =
     (case bop of
        Plus \<Rightarrow> Inr (PInt (n + m))
      | Minus \<Rightarrow> Inr (PInt (n - m))
      | Times \<Rightarrow> Inr (PInt (n * m))
      | Divide \<Rightarrow>
          bindE (py_div (of_int n) (of_int m)) (\<lambda>q.
          bindE (as_float q) (\<lambda>q. Inr (PNum q)))
      | Power \<Rightarrow>
          if 0 \<le> m then Inr (PInt (n ^ nat m))
          else bindE (as_float (of_int n)) (\<lambda>a.
               bindE (as_float (of_int m)) (\<lambda>b.
               bindE (py_pow a b) (\<lambda>v. Inr (PNum v)))))"

definition DualNumber_op :: "binop \<Rightarrow> DualNumber \<Rightarrow> pyval \<Rightarrow> error + DualNumber" where
  "DualNumber_op bop =
     (case bop of
        Plus \<Rightarrow> DualNumber_add
      | Minus \<Rightarrow> DualNumber_sub
      | Times \<Rightarrow> DualNumber_mul
      | Divide \<Rightarrow> DualNumber_truediv
      | Power \<Rightarrow> DualNumber_pow)"

definition DualNumber_rop :: "binop \<Rightarrow> DualNumber \<Rightarrow> pyval \<Rightarrow> error + DualNumber" where
  "DualNumber_rop bop =
     (case bop of
        Plus \<Rightarrow> DualNumber_radd
      | Minus \<Rightarrow> DualNumber_rsub
      | Times \<Rightarrow> DualNumber_rmul
      | Divide \<Rightarrow> DualNumber_rtruediv
      | Power \<Rightarrow> DualNumber_rpow)"

definition rNode_op :: "binop \<Rightarrow> nat \<Rightarrow> pyval \<Rightarrow> state \<Rightarrow> (error + nat) \<times> state" where
  "rNode_op bop =
     (case bop of
        Plus \<Rightarrow> rNode_add
      | Minus \<Rightarrow> rNode_sub
      | Times \<Rightarrow> rNode_mul
      | Divide \<Rightarrow> rNode_truediv
      | Power \<Rightarrow> rNode_pow)"

definition rNode_rop :: "binop \<Rightarrow> nat \<Rightarrow> pyval \<Rightarrow> state \<Rightarrow> (error + nat) \<times> state" where
  "rNode_rop bop =
     (case bop of
        Plus \<Rightarrow> rNode_radd
      | Minus \<Rightarrow> rNode_rsub
      | Times \<Rightarrow> rNode_rmul
      | Divide \<Rightarrow> rNode_rtruediv
      | Power \<Rightarrow> rNode_rpow)"

definition as_dual :: "error + DualNumber \<Rightarrow> state \<Rightarrow> (error + pyval) \<times> state" where
  "as_dual r st = (case r of Inl e \<Rightarrow> (Inl e, st) | Inr z \<Rightarrow> (Inr (PDual z), st))"

definition as_node :: "(error + nat) \<times> state \<Rightarrow> (error + pyval) \<times> state" where
  "as_node r = (case r of (Inl e, st) \<Rightarrow> (Inl e, st) | (Inr a, st) \<Rightarrow> (Inr (PNode a), st))"

text \<open>
  \<^verbatim>\<open>DualNumber.__sub__\<close> multiplies its operand by \<open>-1\<close> first; on an \<^verbatim>\<open>rNode\<close> operand
  that product is the node's, which creates nodes before \<^verbatim>\<open>__add__\<close> raises.
\<close>

definition py_binop :: "binop \<Rightarrow> pyval \<Rightarrow> pyval \<Rightarrow> state \<Rightarrow> (error + pyval) \<times> state" where
  "py_binop bop x y st =
     (case x of
        PNum a \<Rightarrow>
          (case y of
             PNum b \<Rightarrow> (case num_binop bop a b of Inl e \<Rightarrow> (Inl e, st) | Inr c \<Rightarrow> (Inr (PNum c), st))
           | PInt m \<Rightarrow>
               (case num_binop bop a (of_int m) of
                  Inl e \<Rightarrow> (Inl e, st)
                | Inr c \<Rightarrow> (Inr (PNum c), st))
           | PDual w \<Rightarrow> as_dual (DualNumber_rop bop w x) st
           | PNode s \<Rightarrow> as_node (rNode_rop bop s x st)
           | POther \<Rightarrow> (Inl TypeError, st))
      | PInt n \<Rightarrow>
          (case y of
             PNum b \<Rightarrow>
               (case num_binop bop (of_int n) b of
                  Inl e \<Rightarrow> (Inl e, st)
                | Inr c \<Rightarrow> (Inr (PNum c), st))
           | PInt m \<Rightarrow> (int_binop bop n m, st)
           | PDual w \<Rightarrow> as_dual (DualNumber_rop bop w x) st
           | PNode s \<Rightarrow> as_node (rNode_rop bop s x st)
           | POther \<Rightarrow> (Inl TypeError, st))
      | PDual z \<Rightarrow>
          (case y of
             PNode s \<Rightarrow>
               if bop = Minus then (Inl TypeError, snd (rNode_mul s (PNum (- 1)) st))
               else as_dual (DualNumber_op bop z y) st
           | _ \<Rightarrow> as_dual (DualNumber_op bop z y) st)
      | PNode s \<Rightarrow> as_node (rNode_op bop s y st)
      | POther \<Rightarrow>
          (case y of
             PDual w \<Rightarrow> as_dual (DualNumber_rop bop w x) st
           | PNode s \<Rightarrow> as_node (rNode_rop bop s x st)
           | _ \<Rightarrow> (Inl TypeError, st)))"

definition py_neg :: "pyval \<Rightarrow> state \<Rightarrow> (error + pyval) \<times> state" where
  "py_neg x st =
     (case x of
        PNum a \<Rightarrow> (Inr (PNum (- a)), st)
      | PInt n \<Rightarrow> (Inr (PInt (- n)), st)
      | PDual z \<Rightarrow> (Inr (PDual (DualNumber_neg z)), st)
      | PNode s \<Rightarrow> as_node (rNode_neg s st)
      | POther \<Rightarrow> (Inl TypeError, st))"

text \<open>
  A function built from the operators and the elementary functions, as a straight-line
  body: each statement applies one operator to arguments, literals or earlier results
  and binds the result to the next local variable; the function returns one of its
  variables or literals, or a tuple of them. Registers \<open>0 .. params - 1\<close> are the
  arguments. \<open>Call (ULogBase b) x\<close> is \<^verbatim>\<open>log_base(x, b)\<close>.
\<close>

datatype operand = Reg nat | Lit real

datatype instr = Binary binop operand operand | Negate operand | Call unkind operand

datatype returned = RetOne operand | RetTuple "operand list"

record prog =
  params :: nat
  body :: "instr list"
  ret :: returned

definition operand_value :: "pyval list \<Rightarrow> operand \<Rightarrow> error + pyval" where
  "operand_value regs x =
     (case x of
        Reg i \<Rightarrow> if i < length regs then Inr (regs ! i) else Inl NameError
      | Lit c \<Rightarrow> Inr (PNum c))"

definition exec_instr :: "instr \<Rightarrow> pyval list \<Rightarrow> state \<Rightarrow> (error + pyval) \<times> state" where
  "exec_instr ins regs st =
     (case ins of
        Binary bop x y \<Rightarrow>
          (case operand_value regs x of
             Inl e \<Rightarrow> (Inl e, st)
           | Inr xv \<Rightarrow>
               (case operand_value regs y of
                  Inl e \<Rightarrow> (Inl e, st)
                | Inr yv \<Rightarrow> py_binop bop xv yv st))
      | Negate x \<Rightarrow>
          (case operand_value regs x of
             Inl e \<Rightarrow> (Inl e, st)
           | Inr xv \<Rightarrow> py_neg xv st)
      | Call f x \<Rightarrow>
          (case operand_value regs x of
             Inl e \<Rightarrow> (Inl e, st)
           | Inr xv \<Rightarrow> elementary f xv st))"

fun exec_body :: "instr list \<Rightarrow> pyval list \<Rightarrow> state \<Rightarrow> (error + pyval list) \<times> state" where
  "exec_body [] regs st = (Inr regs, st)"
| "exec_body (ins # rest) regs st =
     (case exec_instr ins regs st of
        (Inl e, st') \<Rightarrow> (Inl e, st')
      | (Inr v, st') \<Rightarrow> exec_body rest (regs @ [v]) st')"

fun operand_values :: "pyval list \<Rightarrow> operand list \<Rightarrow> error + pyval list" where
  "operand_values regs [] = Inr []"
| "operand_values regs (x # xs) =
     bindE (operand_value regs x) (\<lambda>v.
     bindE (operand_values regs xs) (\<lambda>vs. Inr (v # vs)))"

definition returned_value :: "pyval list \<Rightarrow> returned \<Rightarrow> error + pyret" where
  "returned_value regs r =
     (case r of
        RetOne x \<Rightarrow> bindE (operand_value regs x) (\<lambda>v. Inr (Single v))
      | RetTuple xs \<Rightarrow> bindE (operand_values regs xs) (\<lambda>vs. Inr (Tuple vs)))"

text \<open>Calling the function: a wrong number of arguments is Python's \<^verbatim>\<open>TypeError\<close>.\<close>

definition run_prog :: "prog \<Rightarrow> pyfun" where
  "run_prog p args st =
     (if length args \<noteq> params p then (Inl TypeError, st)
      else (case exec_body (body p) args st of
              (Inl e, st') \<Rightarrow> (Inl e, st')
            | (Inr regs, st') \<Rightarrow> (returned_value regs (ret p), st')))"

section \<open>Notions used to state the properties\<close>

text \<open>A number by its value alone; any other object as it is.\<close>

fun by_value :: "pyval \<Rightarrow> pyval" where
  "by_value (PInt n) = PNum (of_int n)"
| "by_value x = x"





text \<open>
  A constructed graph: every parent was created before its child, so its address is
  smaller.
\<close>

definition heap_ok :: "rNode list \<Rightarrow> bool" where
  "heap_ok h = (\<forall>a < length h. \<forall>p \<in> set (parents (h ! a)). p < a)"

text \<open>
  The same for the nodes from address \<open>base\<close> on, whose parents are among them: the
  graph of one evaluation, whatever the heap held before.
\<close>

definition heap_ok_from :: "nat \<Rightarrow> rNode list \<Rightarrow> bool" where
  "heap_ok_from base h =
     (\<forall>a. base \<le> a \<and> a < length h \<longrightarrow> (\<forall>p \<in> set (parents (h ! a)). base \<le> p \<and> p < a))"

text \<open>The nodes reachable from \<open>r\<close> along parent references.\<close>

definition parent_edges :: "rNode list \<Rightarrow> (nat \<times> nat) set" where
  "parent_edges h = {(a, p). a < length h \<and> p \<in> set (parents (h ! a))}"

definition reachable :: "rNode list \<Rightarrow> nat \<Rightarrow> nat set" where
  "reachable h r = (parent_edges h)\<^sup>* `` {r}"

text \<open>Every parent of every node of the list stands at a strictly smaller position.\<close>

definition parents_before :: "rNode list \<Rightarrow> nat list \<Rightarrow> bool" where
  "parents_before h order =
     (\<forall>i < length order. \<forall>p \<in> set (parents (h ! (order ! i))). \<exists>j < i. order ! j = p)"

text \<open>
  The state of the sort when a node below \<open>m\<close> is about to be visited: what has been
  appended is in topological order, and every node below \<open>m\<close> that was visited has been
  appended.
\<close>

definition sort_state_ok :: "rNode list \<Rightarrow> nat \<Rightarrow> nat list \<Rightarrow> nat set \<Rightarrow> bool" where
  "sort_state_ok h m topo vis =
     (distinct topo \<and> parents_before h topo \<and> (\<forall>a < m. a \<in> vis \<longleftrightarrow> a \<in> set topo))"

text \<open>The graph of \<^verbatim>\<open>x + x * x\<close> at \<^verbatim>\<open>x = 3\<close>.\<close>

definition diamond_heap :: "rNode list" where
  "diamond_heap =
     [\<lparr>val = 3, der = 0, backward_func = NoRule, oper = Oper [], parents = [], name = 0\<rparr>,
      \<lparr>val = 9, der = 0, backward_func = BinRule KMul 0 0 1, oper = Oper ''x'', parents = [0], name = 1\<rparr>,
      \<lparr>val = 12, der = 0, backward_func = BinRule KAdd 0 1 2, oper = Oper ''+'', parents = [0, 1], name = 2\<rparr>]"

text \<open>The nodes a closure writes to.\<close>

fun targets :: "closure \<Rightarrow> nat list" where
  "targets NoRule = []"
| "targets (BinRule k self other res) = [self, other]"
| "targets (RpowRule c self res) = [self]"
| "targets (UnRule f x res) = [x]"

text \<open>Two heaps that differ in the adjoints only.\<close>

definition same_shape :: "rNode list \<Rightarrow> rNode list \<Rightarrow> bool" where
  "same_shape h h' =
     (length h' = length h \<and> (\<forall>a < length h. (h' ! a)\<lparr>der := 0\<rparr> = (h ! a)\<lparr>der := 0\<rparr>))"

text \<open>
  Closures as the operators install them: a closure writes to parents of its node only.
\<close>

definition closures_ok :: "rNode list \<Rightarrow> bool" where
  "closures_ok h = (\<forall>a < length h. set (targets (backward_func (h ! a))) \<subseteq> set (parents (h ! a)))"

text \<open>One input node of value 3, named \<^verbatim>\<open>v0\<close>, and the counter after its creation.\<close>

definition one_input :: state where
  "one_input =
     \<lparr>heap = [\<lparr>val = 3, der = 0, backward_func = NoRule, oper = Oper [], parents = [], name = 0\<rparr>],
      increment = 1\<rparr>"

text \<open>The value of \<^verbatim>\<open>a ** b\<close> where it is a real number.\<close>

definition the_pow :: "real \<Rightarrow> real \<Rightarrow> real" where
  "the_pow a b = (case py_pow a b of Inr v \<Rightarrow> v | Inl e \<Rightarrow> 0)"

text \<open>
  The local partial derivatives of the two-operand closures, by which \<^verbatim>\<open>res.der\<close> is
  multiplied before it is added to \<^verbatim>\<open>self.der\<close> and to \<^verbatim>\<open>other.der\<close>, at
  \<^verbatim>\<open>self.val = a\<close> and \<^verbatim>\<open>other.val = b\<close>.
\<close>

fun partial_self :: "binkind \<Rightarrow> real \<Rightarrow> real \<Rightarrow> real" where
  "partial_self KAdd a b = 1"
| "partial_self KSub a b = 1"
| "partial_self KRsub a b = - 1"
| "partial_self KMul a b = b"
| "partial_self KPow a b = b * the_pow a (b - 1)"
| "partial_self KDiv a b = 1 / b"
| "partial_self KRdiv a b = - b / the_pow a 2"

fun partial_other :: "binkind \<Rightarrow> real \<Rightarrow> real \<Rightarrow> real" where
  "partial_other KAdd a b = 1"
| "partial_other KSub a b = - 1"
| "partial_other KRsub a b = 1"
| "partial_other KMul a b = a"
| "partial_other KPow a b = the_pow a b * np_log a"
| "partial_other KDiv a b = - a / the_pow b 2"
| "partial_other KRdiv a b = 1 / a"

text \<open>
  The operators that wrap a numeric operand in a leaf, each with the kind of closure it
  installs.
\<close>

definition promoting_operators ::
  "((nat \<Rightarrow> pyval \<Rightarrow> state \<Rightarrow> (error + nat) \<times> state) \<times> binkind) list" where
  "promoting_operators =
     [(rNode_add, KAdd), (rNode_radd, KAdd), (rNode_sub, KSub), (rNode_rsub, KRsub),
      (rNode_mul, KMul), (rNode_rmul, KMul), (rNode_truediv, KDiv), (rNode_rtruediv, KRdiv),
      (rNode_pow, KPow)]"

text \<open>\<^verbatim>\<open>lambda x: x + 1\<close> and \<^verbatim>\<open>def ff(x): return x + 1, x + 4\<close>, as the tests declare them.\<close>

definition plus_one :: prog where
  "plus_one = \<lparr>params = 1, body = [Binary Plus (Reg 0) (Lit 1)], ret = RetOne (Reg 1)\<rparr>"

definition two_results :: prog where
  "two_results =
     \<lparr>params = 1, body = [Binary Plus (Reg 0) (Lit 1), Binary Plus (Reg 0) (Lit 4)],
      ret = RetTuple [Reg 1, Reg 2]\<rparr>"

definition empty_state :: state where
  "empty_state = \<lparr>heap = [], increment = 0\<rparr>"

definition two_results_as_one :: Func where
  "two_results_as_one = \<lparr>func = run_prog two_results, num_inputs = 1, num_outputs = 1\<rparr>"

definition plus_one_func :: Func where
  "plus_one_func = \<lparr>func = run_prog plus_one, num_inputs = 1, num_outputs = 1\<rparr>"

text \<open>
  What an evaluation starting in \<open>st\<close> and ending in \<open>st'\<close> did to the heap and the
  counter when it only created nodes: the old nodes are as they were, and the new ones
  took the counter's successive values.
\<close>

definition created :: "state \<Rightarrow> state \<Rightarrow> bool" where
  "created st st' =
     (\<exists>new. heap st' = heap st @ new \<and> increment st' = increment st + length new \<and>
        (\<forall>i < length new. name (new ! i) = increment st + i))"

section \<open>Dual-number arithmetic\<close>





section \<open>Domain errors of the elementary functions\<close>








section \<open>Topological order\<close>

lemma reachable_unfold:
  "n < length h \<Longrightarrow> reachable h n = insert n (\<Union>p \<in> set (parents (h ! n)). reachable h p)"
proof (intro equalityI subsetI)
  fix a assume n: "n < length h" and "a \<in> reachable h n"
  then have "(n, a) \<in> (parent_edges h)\<^sup>*" by (simp add: reachable_def)
  then show "a \<in> insert n (\<Union>p \<in> set (parents (h ! n)). reachable h p)"
  proof (cases rule: converse_rtranclE)
    case base
    then show ?thesis by simp
  next
    case (step y)
    then show ?thesis by (auto simp: parent_edges_def reachable_def)
  qed
next
  fix a assume n: "n < length h" and "a \<in> insert n (\<Union>p \<in> set (parents (h ! n)). reachable h p)"
  then show "a \<in> reachable h n"
    by (auto simp: reachable_def parent_edges_def intro: converse_rtrancl_into_rtrancl)
qed

lemma parents_before_closed:
  assumes "parents_before h order" "a \<in> set order"
  shows "reachable h a \<subseteq> set order"
proof
  fix b assume "b \<in> reachable h a"
  then have "(a, b) \<in> (parent_edges h)\<^sup>*" by (simp add: reachable_def)
  then show "b \<in> set order"
  proof (induction rule: rtrancl_induct)
    case base
    then show ?case using assms by simp
  next
    case (step y z)
    then obtain i where i: "i < length order" "order ! i = y" by (auto simp: in_set_conv_nth)
    from step have "z \<in> set (parents (h ! y))" by (simp add: parent_edges_def)
    with assms(1) i obtain j where "j < i" "order ! j = z"
      by (auto simp: parents_before_def)
    with i have "j < length order" by simp
    with \<open>order ! j = z\<close> show ?case using nth_mem by blast
  qed
qed

lemma parents_before_append:
  assumes "parents_before h xs"
    and "\<forall>i < length ys. \<forall>p \<in> set (parents (h ! (ys ! i))). p \<in> set xs \<or> (\<exists>j < i. ys ! j = p)"
  shows "parents_before h (xs @ ys)"
  unfolding parents_before_def
proof (intro allI impI ballI)
  fix i p assume i: "i < length (xs @ ys)" and p: "p \<in> set (parents (h ! ((xs @ ys) ! i)))"
  show "\<exists>j<i. (xs @ ys) ! j = p"
  proof (cases "i < length xs")
    case True
    with assms(1) p obtain j where "j < i" "xs ! j = p"
      by (auto simp: parents_before_def nth_append)
    with True show ?thesis by (auto simp: nth_append intro!: exI[of _ j])
  next
    case False
    then have i': "i - length xs < length ys" "(xs @ ys) ! i = ys ! (i - length xs)"
      using i by (auto simp: nth_append)
    with assms(2) p have "p \<in> set xs \<or> (\<exists>j < i - length xs. ys ! j = p)" by auto
    then show ?thesis
    proof
      assume "p \<in> set xs"
      then obtain j where "j < length xs" "xs ! j = p" by (auto simp: in_set_conv_nth)
      with False show ?thesis by (auto simp: nth_append intro!: exI[of _ j])
    next
      assume "\<exists>j < i - length xs. ys ! j = p"
      then obtain j where "j < i - length xs" "ys ! j = p" by auto
      then show ?thesis by (auto simp: nth_append intro!: exI[of _ "length xs + j"])
    qed
  qed
qed

lemma toposort_result:
  "heap_ok_from base h \<Longrightarrow> base \<le> n \<Longrightarrow> n < length h \<Longrightarrow>
   sort_state_ok h (Suc n) (fst acc) (snd acc) \<Longrightarrow>
     \<exists>new. toposort h n acc = (fst acc @ new, snd acc \<union> set new) \<and>
       set new = reachable h n - set (fst acc) \<and> (\<forall>a \<in> set new. base \<le> a \<and> a \<le> n) \<and>
       distinct (fst acc @ new) \<and> parents_before h (fst acc @ new)"
  "heap_ok_from base h \<Longrightarrow> \<forall>p \<in> set ps. base \<le> p \<and> p < m \<Longrightarrow> m \<le> length h \<Longrightarrow>
   sort_state_ok h m (fst acc) (snd acc) \<Longrightarrow>
     \<exists>new. toposort_parents h ps acc = (fst acc @ new, snd acc \<union> set new) \<and>
       set new = (\<Union>p \<in> set ps. reachable h p) - set (fst acc) \<and>
       (\<forall>a \<in> set new. base \<le> a \<and> a < m) \<and>
       distinct (fst acc @ new) \<and> parents_before h (fst acc @ new)"
proof (induction h n acc and h ps acc arbitrary: and m rule: toposort_toposort_parents.induct)
  case (1 h node topo vis)
  note hok = \<open>heap_ok_from base h\<close> and lo = \<open>base \<le> node\<close> and hi = \<open>node < length h\<close>
  from 1(5) have ok: "distinct topo" "parents_before h topo" "\<forall>a < Suc node. a \<in> vis \<longleftrightarrow> a \<in> set topo"
    by (simp_all add: sort_state_ok_def)
  show ?case
  proof (cases "node \<in> vis")
    case True
    with ok have "node \<in> set topo" by simp
    with ok have "reachable h node \<subseteq> set topo" by (intro parents_before_closed)
    with True ok show ?thesis by (intro exI[of _ "[]"]) auto
  next
    case False
    with ok have notin: "node \<notin> set topo" by simp
    have ps: "\<forall>p \<in> set (parents (h ! node)). base \<le> p \<and> p < node"
      using hok lo hi unfolding heap_ok_from_def by blast
    have st: "sort_state_ok h node (fst (topo, insert node vis)) (snd (topo, insert node vis))"
      using ok by (auto simp: sort_state_ok_def)
    have c: "\<not> (node \<in> vis \<or> \<not> node < length h)" using False hi by simp
    have le: "node \<le> length h" using hi by simp
    from 1(1)[OF c hok ps le st]
    obtain new0 where new0:
      "toposort_parents h (parents (h ! node)) (topo, insert node vis) =
         (topo @ new0, insert node vis \<union> set new0)"
      "set new0 = (\<Union>p \<in> set (parents (h ! node)). reachable h p) - set topo"
      "\<forall>a \<in> set new0. base \<le> a \<and> a < node" "distinct (topo @ new0)"
      "parents_before h (topo @ new0)"
      by auto
    have eq: "toposort h node (topo, vis) = (topo @ new0 @ [node], vis \<union> set (new0 @ [node]))"
      using False hi new0(1) by simp
    have set_eq: "set (new0 @ [node]) = reachable h node - set topo"
      using new0(2) notin reachable_unfold[OF hi] by auto
    have dist: "distinct (topo @ new0 @ [node])"
      using new0(3,4) notin by auto
    have "parents_before h ((topo @ new0) @ [node])"
    proof (rule parents_before_append[OF new0(5)])
      have "\<forall>p \<in> set (parents (h ! node)). p \<in> set (topo @ new0)"
      proof
        fix p assume p: "p \<in> set (parents (h ! node))"
        have "p \<in> reachable h p" by (simp add: reachable_def)
        with p new0(2) show "p \<in> set (topo @ new0)" by auto
      qed
      then show "\<forall>i<length [node]. \<forall>p\<in>set (parents (h ! ([node] ! i))).
          p \<in> set (topo @ new0) \<or> (\<exists>j<i. [node] ! j = p)"
        by simp
    qed
    then have pb: "parents_before h (topo @ new0 @ [node])" by simp
    have rng: "\<forall>a \<in> set (new0 @ [node]). base \<le> a \<and> a \<le> node"
      using new0(3) lo by (auto simp: less_imp_le)
    have q1: "toposort h node (topo, vis) =
        (fst (topo, vis) @ (new0 @ [node]), snd (topo, vis) \<union> set (new0 @ [node]))"
      using eq by simp
    have q2: "set (new0 @ [node]) = reachable h node - set (fst (topo, vis))"
      using set_eq by simp
    have q4: "distinct (fst (topo, vis) @ (new0 @ [node]))" using dist by simp
    have q5: "parents_before h (fst (topo, vis) @ (new0 @ [node]))" using pb by simp
    from q1 q2 rng q4 q5 show ?thesis by blast
  qed
next
  case (2 h acc)
  then show ?case by (intro exI[of _ "[]"]) (auto simp: sort_state_ok_def)
next
  case (3 h p ps acc)
  note hok = \<open>heap_ok_from base h\<close> and mle = \<open>m \<le> length h\<close>
  obtain topo vis where acc: "acc = (topo, vis)" by (cases acc)
  from 3(4) have pm: "base \<le> p" "p < m" and psm: "\<forall>q \<in> set ps. base \<le> q \<and> q < m" by auto
  have ok: "distinct topo" "parents_before h topo" "\<forall>a < m. a \<in> vis \<longleftrightarrow> a \<in> set topo"
    using 3(6) acc by (simp_all add: sort_state_ok_def)
  have st1: "sort_state_ok h (Suc p) (fst acc) (snd acc)"
    using ok pm acc by (auto simp: sort_state_ok_def)
  have pl: "p < length h" using pm mle by simp
  from 3(1)[OF hok pm(1) pl st1]
  obtain new1 where new1:
    "toposort h p acc = (topo @ new1, vis \<union> set new1)"
    "set new1 = reachable h p - set topo"
    "\<forall>a \<in> set new1. base \<le> a \<and> a \<le> p" "distinct (topo @ new1)" "parents_before h (topo @ new1)"
    using acc by auto
  have st2: "sort_state_ok h m (fst (toposort h p acc)) (snd (toposort h p acc))"
    using new1 ok by (auto simp: sort_state_ok_def)
  from 3(2)[OF hok psm mle st2]
  obtain new2 where new2:
    "toposort_parents h ps (toposort h p acc) = ((topo @ new1) @ new2, (vis \<union> set new1) \<union> set new2)"
    "set new2 = (\<Union>q \<in> set ps. reachable h q) - set (topo @ new1)"
    "\<forall>a \<in> set new2. base \<le> a \<and> a < m" "distinct ((topo @ new1) @ new2)"
    "parents_before h ((topo @ new1) @ new2)"
    using new1(1) by auto
  have r1: "toposort_parents h (p # ps) acc = (fst acc @ (new1 @ new2), snd acc \<union> set (new1 @ new2))"
    using new1(1) new2(1) acc by (simp add: Un_assoc)
  have r2: "set (new1 @ new2) = (\<Union>q \<in> set (p # ps). reachable h q) - set (fst acc)"
    using new1(2) new2(2) acc by auto
  have r3: "\<forall>a \<in> set (new1 @ new2). base \<le> a \<and> a < m"
    using new1(3) new2(3) pm by auto
  have r4: "distinct (fst acc @ (new1 @ new2))"
    using new2(4) acc by simp
  have r5: "parents_before h (fst acc @ (new1 @ new2))"
    using new2(5) acc by simp
  from r1 r2 r3 r4 r5 show ?case by blast
qed

lemma sort_nodes_from:
  assumes "heap_ok_from base h" "base \<le> r" "r < length h"
  shows "set (sort_nodes h r) = reachable h r" "distinct (sort_nodes h r)"
    "parents_before h (sort_nodes h r)" "\<forall>a \<in> set (sort_nodes h r). base \<le> a \<and> a \<le> r"
proof -
  have "sort_state_ok h (Suc r) (fst ([], {})) (snd ([], {}))"
    by (simp add: sort_state_ok_def parents_before_def)
  from toposort_result(1)[OF assms this]
  show "set (sort_nodes h r) = reachable h r" "distinct (sort_nodes h r)"
    "parents_before h (sort_nodes h r)" "\<forall>a \<in> set (sort_nodes h r). base \<le> a \<and> a \<le> r"
    by (auto simp: sort_nodes_def)
qed

lemma heap_ok_from_0: "heap_ok h \<Longrightarrow> heap_ok_from 0 h"
  by (simp add: heap_ok_def heap_ok_from_def)

text \<open>
  C5. In a constructed graph, the list returned by the depth-first post-order sort rooted
  at a node contains each reachable node exactly once, and every node of the list stands
  strictly after all of its parents (all of which occur in the list).
\<close>

theorem sort_nodes_topological:
  assumes "heap_ok h" "r < length h"
  shows "set (sort_nodes h r) = reachable h r \<and> distinct (sort_nodes h r) \<and>
         parents_before h (sort_nodes h r)"
  using sort_nodes_from[OF heap_ok_from_0[OF assms(1)] _ assms(2)] by simp

lemma diamond_heap_ok: "heap_ok diamond_heap"
  by (auto simp: heap_ok_def diamond_heap_def less_Suc_eq numeral_3_eq_3)

lemma diamond_sort: "sort_nodes diamond_heap 2 = [0, 1, 2]"
  by (simp add: sort_nodes_def diamond_heap_def)

theorem sort_nodes_topological_witness:
  "heap_ok diamond_heap \<and> 2 < length diamond_heap \<and> sort_nodes diamond_heap 2 = [0, 1, 2] \<and>
   set (sort_nodes diamond_heap 2) = reachable diamond_heap 2 \<and>
   distinct (sort_nodes diamond_heap 2) \<and> parents_before diamond_heap (sort_nodes diamond_heap 2)"
proof -
  have len: "2 < length diamond_heap" by (simp add: diamond_heap_def)
  from sort_nodes_topological[OF diamond_heap_ok len] diamond_heap_ok len diamond_sort
  show ?thesis by blast
qed

section \<open>The backward pass\<close>

lemma same_shape_refl: "same_shape h h"
  by (simp add: same_shape_def)

lemma same_shape_trans: "same_shape h h1 \<Longrightarrow> same_shape h1 h2 \<Longrightarrow> same_shape h h2"
  by (simp add: same_shape_def)

lemma same_shape_fields:
  assumes "same_shape h h'" "a < length h"
  shows "val (h' ! a) = val (h ! a)" "parents (h' ! a) = parents (h ! a)"
    "name (h' ! a) = name (h ! a)" "backward_func (h' ! a) = backward_func (h ! a)"
    "oper (h' ! a) = oper (h ! a)"
proof -
  from assms have e: "(h' ! a)\<lparr>der := 0\<rparr> = (h ! a)\<lparr>der := 0\<rparr>" by (simp add: same_shape_def)
  from arg_cong[OF e, of val] show "val (h' ! a) = val (h ! a)" by simp
  from arg_cong[OF e, of parents] show "parents (h' ! a) = parents (h ! a)" by simp
  from arg_cong[OF e, of name] show "name (h' ! a) = name (h ! a)" by simp
  from arg_cong[OF e, of backward_func] show "backward_func (h' ! a) = backward_func (h ! a)" by simp
  from arg_cong[OF e, of oper] show "oper (h' ! a) = oper (h ! a)" by simp
qed

lemma same_shape_length: "same_shape h h' \<Longrightarrow> length h' = length h"
  by (simp add: same_shape_def)

lemma add_der_shape: "same_shape h (add_der a d h)"
proof -
  have "(h[a := (h ! a)\<lparr>der := x\<rparr>] ! b)\<lparr>der := 0\<rparr> = (h ! b)\<lparr>der := 0\<rparr>" if "b < length h" for b x
    using that by (cases "b = a") simp_all
  then show ?thesis by (simp add: same_shape_def add_der_def)
qed

lemma set_der_shape: "same_shape h (set_der a d h)"
proof -
  have "(h[a := (h ! a)\<lparr>der := x\<rparr>] ! b)\<lparr>der := 0\<rparr> = (h ! b)\<lparr>der := 0\<rparr>" if "b < length h" for b x
    using that by (cases "b = a") simp_all
  then show ?thesis by (simp add: same_shape_def set_der_def)
qed

lemma add_der_other: "b \<noteq> a \<Longrightarrow> add_der a d h ! b = h ! b"
  by (simp add: add_der_def)

lemma add_der_self: "a < length h \<Longrightarrow> der (add_der a d h ! a) = der (h ! a) + d"
  by (simp add: add_der_def)

lemma run_closure_shape: "run_closure c h = Inr h' \<Longrightarrow> same_shape h h'"
proof (induction c h rule: run_closure.induct)
  case (6 self other res h)
  then show ?case
    by (auto simp: bindE_def Let_def split: sum.splits
        intro: same_shape_trans[OF add_der_shape add_der_shape])
next
  case (7 self other res h)
  then show ?case
    by (auto simp: bindE_def Let_def split: sum.splits
        intro: same_shape_trans[OF add_der_shape add_der_shape])
next
  case (8 self other res h)
  then show ?case
    by (auto simp: bindE_def Let_def split: sum.splits
        intro: same_shape_trans[OF add_der_shape add_der_shape])
qed (auto simp: bindE_def Let_def same_shape_refl add_der_shape split: sum.splits
        intro: same_shape_trans[OF add_der_shape add_der_shape])

lemma run_closure_frame:
  "run_closure c h = Inr h' \<Longrightarrow> b \<notin> set (targets c) \<Longrightarrow> h' ! b = h ! b"
  by (induction c h rule: run_closure.induct)
     (auto simp: bindE_def Let_def add_der_other split: sum.splits)

lemma zero_adjoints_length: "length (zero_adjoints xs h) = length h"
  by (induction xs arbitrary: h) (simp_all add: set_der_def)

lemma zero_adjoints_nth:
  "a < length h \<Longrightarrow>
   zero_adjoints xs h ! a = (if a \<in> set xs then (h ! a)\<lparr>der := 0\<rparr> else h ! a)"
proof (induction xs arbitrary: h)
  case Nil
  then show ?case by simp
next
  case (Cons x xs)
  have len: "a < length (set_der x 0 h)" using Cons.prems by (simp add: set_der_def)
  show ?case
  proof (cases "a = x")
    case True
    then show ?thesis using Cons.IH[OF len] Cons.prems by (simp add: set_der_def)
  next
    case False
    then show ?thesis using Cons.IH[OF len] Cons.prems by (simp add: set_der_def)
  qed
qed


lemma backward_walk_frame:
  assumes "backward_walk n xs row h = Inr (row', h')"
    and "\<forall>a \<in> set xs. a < length h \<and> b \<notin> set (targets (backward_func (h ! a)))"
  shows "h' ! b = h ! b"
  using assms
proof (induction xs arbitrary: row h)
  case Nil
  then show ?case by simp
next
  case (Cons x xs)
  from Cons.prems(1) obtain h1 where h1: "run_closure (backward_func (h ! x)) h = Inr h1"
    and rest: "backward_walk n xs
        (if name (h ! x) < n then row[name (h ! x) := der (h ! x)] else row) h1 = Inr (row', h')"
    by (auto simp: Let_def split: sum.splits)
  have sh: "same_shape h h1" by (rule run_closure_shape[OF h1])
  have "\<forall>a \<in> set xs. a < length h1 \<and> b \<notin> set (targets (backward_func (h1 ! a)))"
    using Cons.prems(2) same_shape_fields(4)[OF sh] same_shape_length[OF sh] by auto
  from Cons.IH[OF rest this] have "h' ! b = h1 ! b" .
  moreover have "h1 ! b = h ! b"
    using run_closure_frame[OF h1] Cons.prems(2) by simp
  ultimately show ?case by simp
qed

lemma sort_nodes_last: "self < length h \<Longrightarrow> \<exists>xs. sort_nodes h self = xs @ [self]"
  by (simp add: sort_nodes_def split: prod.splits)

lemma backward_seeded:
  assumes "self < length h"
  shows "\<exists>h2. length h2 = length h \<and>
     (\<forall>a < length h. h2 ! a =
        (h ! a)\<lparr>der := (if a = self then 1 else if a \<in> set (sort_nodes h self) then 0
                         else der (h ! a))\<rparr>) \<and>
     backward self n h =
       backward_walk n (rev (sort_nodes h self)) (replicate n 0) h2"
proof -
  let ?h1 = "zero_adjoints (sort_nodes h self) h"
  let ?h2 = "set_der self 1 ?h1"
  have len: "length ?h2 = length h" by (simp add: set_der_def zero_adjoints_length)
  have nth: "?h2 ! a = (h ! a)\<lparr>der := (if a = self then 1
      else if a \<in> set (sort_nodes h self) then 0 else der (h ! a))\<rparr>" if "a < length h" for a
    using that zero_adjoints_nth[OF that, of "sort_nodes h self"]
    by (cases "a = self") (simp_all add: set_der_def zero_adjoints_length)
  have "backward self n h =
      backward_walk n (rev (sort_nodes h self)) (replicate n 0) ?h2"
    by (simp add: backward_def Let_def)
  with len nth show ?thesis by blast
qed




section \<open>A node used as both operands\<close>

lemma reachable_le:
  assumes "heap_ok h" "a \<in> reachable h r"
  shows "a \<le> r"
proof -
  from assms(2) have "(r, a) \<in> (parent_edges h)\<^sup>*" by (simp add: reachable_def)
  then show ?thesis
  proof (induction rule: rtrancl_induct)
    case base
    then show ?case by simp
  next
    case (step y z)
    then have "z < y" using assms(1) by (auto simp: parent_edges_def heap_ok_def)
    with step show ?case by simp
  qed
qed

lemma heap_ok_append:
  assumes "heap_ok h" "\<forall>p \<in> set (parents nd). p < length h"
  shows "heap_ok (h @ [nd])"
  unfolding heap_ok_def
proof (intro allI impI ballI)
  fix a p assume a: "a < length (h @ [nd])" and p: "p \<in> set (parents ((h @ [nd]) ! a))"
  show "p < a"
  proof (cases "a < length h")
    case True
    with p assms(1) show ?thesis by (auto simp: nth_append heap_ok_def)
  next
    case False
    with a have "a = length h" by simp
    with p assms(2) show ?thesis by (auto simp: nth_append)
  qed
qed

lemma closures_ok_append:
  assumes "closures_ok h" "set (targets (backward_func nd)) \<subseteq> set (parents nd)"
  shows "closures_ok (h @ [nd])"
  unfolding closures_ok_def
proof (intro allI impI)
  fix a assume a: "a < length (h @ [nd])"
  show "set (targets (backward_func ((h @ [nd]) ! a))) \<subseteq> set (parents ((h @ [nd]) ! a))"
  proof (cases "a < length h")
    case True
    with assms(1) show ?thesis by (auto simp: nth_append closures_ok_def)
  next
    case False
    with a have "a = length h" by simp
    with assms(2) show ?thesis by (auto simp: nth_append)
  qed
qed

lemma backward_same_operand:
  assumes ok: "heap_ok h" "closures_ok h" and x: "x < length h"
    and nd: "parents nd = [x]" "backward_func nd = BinRule k x x (length h)"
    and bw: "backward (length h) n (h @ [nd]) = Inr (row, h')"
  shows "\<exists>h2 h3. der (h2 ! x) = 0 \<and> der (h2 ! length h) = 1 \<and> val (h2 ! x) = val (h ! x) \<and>
           x < length h2 \<and> length h < length h2 \<and>
           run_closure (BinRule k x x (length h)) h2 = Inr h3 \<and> der (h' ! x) = der (h3 ! x)"
proof -
  let ?h1 = "h @ [nd]" and ?res = "length h"
  have res: "?res < length ?h1" by simp
  have ok1: "heap_ok ?h1" using ok(1) nd(1) x by (intro heap_ok_append) auto
  have cl1: "closures_ok ?h1" using ok(2) nd by (intro closures_ok_append) auto
  from sort_nodes_last[OF res] obtain xs where xs: "sort_nodes ?h1 ?res = xs @ [?res]" by blast
  from sort_nodes_from[OF heap_ok_from_0[OF ok1] _ res]
  have topo: "set (sort_nodes ?h1 ?res) = reachable ?h1 ?res" "distinct (sort_nodes ?h1 ?res)"
    by auto
  have reach: "reachable ?h1 ?res = insert ?res (reachable ?h1 x)"
    using reachable_unfold[OF res] nd(1) by simp
  have xin: "x \<in> reachable ?h1 x" by (simp add: reachable_def)
  have xs_le: "\<forall>a \<in> set xs. a \<le> x"
  proof
    fix a assume a: "a \<in> set xs"
    with topo xs have "a \<noteq> ?res" "a \<in> reachable ?h1 ?res" by auto
    with reach have "a \<in> reachable ?h1 x" by auto
    then show "a \<le> x" by (rule reachable_le[OF ok1])
  qed
  have x_in: "x \<in> set (sort_nodes ?h1 ?res)" using topo(1) reach xin by auto
  from backward_seeded[OF res, of n] obtain h2 where h2:
    "length h2 = length ?h1"
    "\<forall>a < length ?h1. h2 ! a =
        (?h1 ! a)\<lparr>der := (if a = ?res then 1 else if a \<in> set (sort_nodes ?h1 ?res) then 0
                         else der (?h1 ! a))\<rparr>"
    "backward ?res n ?h1 =
       backward_walk n (rev (sort_nodes ?h1 ?res)) (replicate n 0) h2"
    by blast
  have sh12: "same_shape ?h1 h2"
    unfolding same_shape_def using h2(1,2) by simp
  have h2x: "der (h2 ! x) = 0" "val (h2 ! x) = val (h ! x)"
    using h2(2) x x_in by (simp_all add: nth_append)
  have h2res: "der (h2 ! ?res) = 1" "backward_func (h2 ! ?res) = BinRule k x x ?res"
    using h2(2) nd(2) by simp_all
  from bw h2(3) xs have "backward_walk n (?res # rev xs) (replicate n 0) h2 = Inr (row, h')"
    by simp
  then obtain h3 row1 where h3: "run_closure (BinRule k x x ?res) h2 = Inr h3"
    and rest: "backward_walk n (rev xs) row1 h3 = Inr (row, h')"
    using h2res(2) by (auto simp: Let_def split: sum.splits)
  have sh23: "same_shape h2 h3" by (rule run_closure_shape[OF h3])
  have sh13: "same_shape ?h1 h3" by (rule same_shape_trans[OF sh12 sh23])
  have "\<forall>a \<in> set (rev xs). a < length h3 \<and> x \<notin> set (targets (backward_func (h3 ! a)))"
  proof
    fix a assume "a \<in> set (rev xs)"
    then have a: "a \<le> x" using xs_le by simp
    then have a1: "a < length ?h1" using x by simp
    have "set (targets (backward_func (?h1 ! a))) \<subseteq> set (parents (?h1 ! a))"
      using cl1 a1 by (simp add: closures_ok_def)
    moreover have "\<forall>p \<in> set (parents (?h1 ! a)). p < a"
      using ok1 a1 by (simp add: heap_ok_def)
    ultimately have "x \<notin> set (targets (backward_func (?h1 ! a)))" using a
      by (meson in_mono leD)
    then show "a < length h3 \<and> x \<notin> set (targets (backward_func (h3 ! a)))"
      using same_shape_fields(4)[OF sh13 a1] same_shape_length[OF sh13] a1 by simp
  qed
  from backward_walk_frame[OF rest this] have "h' ! x = h3 ! x" .
  with h2x h2res(1) h3 h2(1) x show ?thesis by auto
qed

lemma rNode_add_same:
  "rNode_add x (PNode x) st =
     (Inr (length (heap st)),
      st\<lparr>heap := heap st @
             [\<lparr>val = val (heap st ! x) + val (heap st ! x), der = 0,
               backward_func = BinRule KAdd x x (length (heap st)), oper = Oper ''+'',
               parents = [x], name = increment st\<rparr>],
         increment := increment st + 1\<rparr>)"
  by (simp add: rNode_add_def coerce_def binary_result_def rNode_init_def set_backward_func_def)

lemma rNode_mul_same:
  "rNode_mul x (PNode x) st =
     (Inr (length (heap st)),
      st\<lparr>heap := heap st @
             [\<lparr>val = val (heap st ! x) * val (heap st ! x), der = 0,
               backward_func = BinRule KMul x x (length (heap st)), oper = Oper ''x'',
               parents = [x], name = increment st\<rparr>],
         increment := increment st + 1\<rparr>)"
  by (simp add: rNode_mul_def coerce_def binary_result_def rNode_init_def set_backward_func_def)

text \<open>
  C9. When a node \<open>x\<close> is both operands of \<open>+\<close> or \<open>*\<close>, the result's parents hold \<open>x\<close>
  once, its backward rule names \<open>x\<close> in both accumulation statements, and after a
  backward pass from the result \<open>x\<close>'s adjoint is the sum of both local partials: 2 for
  \<open>x + x\<close> and \<open>2 * x.val\<close> for \<open>x * x\<close>.
\<close>

theorem same_operand_twice:
  assumes "heap_ok (heap st)" "closures_ok (heap st)" "x < length (heap st)"
  shows "(\<exists>res st1. rNode_add x (PNode x) st = (Inr res, st1) \<and>
            parents (heap st1 ! res) = [x] \<and>
            backward_func (heap st1 ! res) = BinRule KAdd x x res \<and>
            (\<forall>n row h'. backward res n (heap st1) = Inr (row, h') \<longrightarrow> der (h' ! x) = 2)) \<and>
         (\<exists>res st1. rNode_mul x (PNode x) st = (Inr res, st1) \<and>
            parents (heap st1 ! res) = [x] \<and>
            backward_func (heap st1 ! res) = BinRule KMul x x res \<and>
            (\<forall>n row h'. backward res n (heap st1) = Inr (row, h') \<longrightarrow>
               der (h' ! x) = 2 * val (heap st ! x)))"
proof (intro conjI)
  let ?h = "heap st"
  let ?nd = "\<lparr>val = val (?h ! x) + val (?h ! x), der = 0,
               backward_func = BinRule KAdd x x (length ?h), oper = Oper ''+'',
               parents = [x], name = increment st\<rparr>"
  have "der (h' ! x) = 2" if bw: "backward (length ?h) n (?h @ [?nd]) = Inr (row, h')" for n row h'
  proof -
    from backward_same_operand[OF assms _ _ bw, of KAdd]
    obtain h2 h3 where f: "der (h2 ! x) = 0" "der (h2 ! length ?h) = 1" "x < length h2"
      "run_closure (BinRule KAdd x x (length ?h)) h2 = Inr h3" "der (h' ! x) = der (h3 ! x)"
      by auto
    from f(4) have "der (h3 ! x) = 2"
      using f(1,2,3) assms(3) by (auto simp: Let_def add_der_def)
    with f(5) show ?thesis by simp
  qed
  then show "\<exists>res st1. rNode_add x (PNode x) st = (Inr res, st1) \<and>
            parents (heap st1 ! res) = [x] \<and>
            backward_func (heap st1 ! res) = BinRule KAdd x x res \<and>
            (\<forall>n row h'. backward res n (heap st1) = Inr (row, h') \<longrightarrow> der (h' ! x) = 2)"
    by (simp add: rNode_add_same)
next
  let ?h = "heap st"
  let ?nd = "\<lparr>val = val (?h ! x) * val (?h ! x), der = 0,
               backward_func = BinRule KMul x x (length ?h), oper = Oper ''x'',
               parents = [x], name = increment st\<rparr>"
  have "der (h' ! x) = 2 * val (?h ! x)"
    if bw: "backward (length ?h) n (?h @ [?nd]) = Inr (row, h')" for n row h'
  proof -
    from backward_same_operand[OF assms _ _ bw, of KMul]
    obtain h2 h3 where f: "der (h2 ! x) = 0" "der (h2 ! length ?h) = 1" "x < length h2"
      "val (h2 ! x) = val (?h ! x)"
      "run_closure (BinRule KMul x x (length ?h)) h2 = Inr h3" "der (h' ! x) = der (h3 ! x)"
      by auto
    from f(5) have "der (h3 ! x) = 2 * val (?h ! x)"
      using f(1,2,3,4) assms(3) by (auto simp: Let_def add_der_def)
    with f(6) show ?thesis by simp
  qed
  then show "\<exists>res st1. rNode_mul x (PNode x) st = (Inr res, st1) \<and>
            parents (heap st1 ! res) = [x] \<and>
            backward_func (heap st1 ! res) = BinRule KMul x x res \<and>
            (\<forall>n row h'. backward res n (heap st1) = Inr (row, h') \<longrightarrow>
               der (h' ! x) = 2 * val (heap st ! x))"
    by (simp add: rNode_mul_same)
qed

lemma one_input_ok: "heap_ok (heap one_input)" "closures_ok (heap one_input)" "0 < length (heap one_input)"
  by (simp_all add: one_input_def heap_ok_def closures_ok_def)

lemma one_input_add:
  "rNode_add 0 (PNode 0) one_input =
     (Inr 1,
      \<lparr>heap = [\<lparr>val = 3, der = 0, backward_func = NoRule, oper = Oper [], parents = [], name = 0\<rparr>,
               \<lparr>val = 6, der = 0, backward_func = BinRule KAdd 0 0 1, oper = Oper ''+'',
                 parents = [0], name = 1\<rparr>],
       increment = 2\<rparr>)"
  by (simp add: rNode_add_same one_input_def)

lemma one_input_add_backward:
  "\<exists>h'. backward 1 1
      [\<lparr>val = 3, der = 0, backward_func = NoRule, oper = Oper [], parents = [], name = 0\<rparr>,
       \<lparr>val = 6, der = 0, backward_func = BinRule KAdd 0 0 1, oper = Oper ''+'',
         parents = [0], name = 1\<rparr>] = Inr ([2], h')"
  by (simp add: backward_def sort_nodes_def set_der_def add_der_def Let_def)

theorem same_operand_twice_witness:
  "heap_ok (heap one_input) \<and> closures_ok (heap one_input) \<and> 0 < length (heap one_input) \<and>
   (\<exists>res st1 h'. rNode_add 0 (PNode 0) one_input = (Inr res, st1) \<and>
      backward res 1 (heap st1) = Inr ([2], h') \<and> der (h' ! 0) = 2)"
proof -
  from same_operand_twice[OF one_input_ok]
  obtain res st1 where r: "rNode_add 0 (PNode 0) one_input = (Inr res, st1)"
    "\<forall>n row h'. backward res n (heap st1) = Inr (row, h') \<longrightarrow> der (h' ! 0) = 2"
    by blast
  from r(1) one_input_add have res: "res = 1" and st1: "heap st1 =
      [\<lparr>val = 3, der = 0, backward_func = NoRule, oper = Oper [], parents = [], name = 0\<rparr>,
       \<lparr>val = 6, der = 0, backward_func = BinRule KAdd 0 0 1, oper = Oper ''+'',
         parents = [0], name = 1\<rparr>]"
    by auto
  from one_input_add_backward res st1 obtain h' where bw: "backward res 1 (heap st1) = Inr ([2], h')"
    by auto
  with r(2) have "der (h' ! 0) = 2" by blast
  with r(1) bw one_input_ok show ?thesis by blast
qed

section \<open>Numeric operands of the node operators\<close>

lemma add_der_val: "val (add_der a d h ! b) = val (h ! b)"
  by (cases "b = a"; cases "a < length h") (simp_all add: add_der_def list_update_beyond)

lemma add_der_der_other: "b \<noteq> a \<Longrightarrow> der (add_der a d h ! b) = der (h ! b)"
  by (simp add: add_der_def)

lemma run_closure_bin:
  assumes "run_closure (BinRule k self other res) g = Inr g'" "self \<noteq> res" "other \<noteq> res"
  shows "g' = add_der other (partial_other k (val (g ! self)) (val (g ! other)) * der (g ! res))
               (add_der self (partial_self k (val (g ! self)) (val (g ! other)) * der (g ! res)) g)"
  using assms
  by (cases k)
     (auto simp: bindE_def Let_def add_der_val add_der_der_other the_pow_def py_div_def
           split: sum.splits if_splits)

lemma binary_result_Inr:
  "binary_result (Inr x) k tag self other st =
     (Inr (length (heap st)),
      st\<lparr>heap := heap st @
             [\<lparr>val = x, der = 0, backward_func = BinRule k self other (length (heap st)),
               oper = Oper tag, parents = remdups [self, other], name = increment st\<rparr>],
         increment := increment st + 1\<rparr>)"
  by (simp add: binary_result_def rNode_init_def set_backward_func_def)

lemma binary_result_Inl: "binary_result (Inl e) k tag self other st = (Inl e, st)"
  by (simp add: binary_result_def)

lemma promoting_operator_effect:
  assumes "(op, k) \<in> set promoting_operators" "self < length (heap st)"
  shows "\<exists>v tag. op self (PNum c) st =
     (case v of
        Inl e \<Rightarrow>
          (Inl e,
           st\<lparr>heap := heap st @
                  [\<lparr>val = c, der = 0, backward_func = NoRule, oper = Oper [], parents = [],
                    name = increment st\<rparr>],
              increment := increment st + 1\<rparr>)
      | Inr x \<Rightarrow>
          (Inr (length (heap st) + 1),
           st\<lparr>heap := heap st @
                  [\<lparr>val = c, der = 0, backward_func = NoRule, oper = Oper [], parents = [],
                    name = increment st\<rparr>,
                   \<lparr>val = x, der = 0,
                    backward_func = BinRule k self (length (heap st)) (length (heap st) + 1),
                    oper = Oper tag, parents = [self, length (heap st)],
                    name = increment st + 1\<rparr>],
              increment := increment st + 2\<rparr>))"
proof -
  have ne: "self \<noteq> length (heap st)" using assms(2) by simp
  have bin: "\<exists>v'. binary_result v k tag self (length (heap st))
       (st\<lparr>heap := heap st @
                  [\<lparr>val = c, der = 0, backward_func = NoRule, oper = Oper [], parents = [],
                    name = increment st\<rparr>],
              increment := increment st + 1\<rparr>) =
     (case v' of
        Inl e \<Rightarrow>
          (Inl e,
           st\<lparr>heap := heap st @
                  [\<lparr>val = c, der = 0, backward_func = NoRule, oper = Oper [], parents = [],
                    name = increment st\<rparr>],
              increment := increment st + 1\<rparr>)
      | Inr x \<Rightarrow>
          (Inr (length (heap st) + 1),
           st\<lparr>heap := heap st @
                  [\<lparr>val = c, der = 0, backward_func = NoRule, oper = Oper [], parents = [],
                    name = increment st\<rparr>,
                   \<lparr>val = x, der = 0,
                    backward_func = BinRule k self (length (heap st)) (length (heap st) + 1),
                    oper = Oper tag, parents = [self, length (heap st)],
                    name = increment st + 1\<rparr>],
              increment := increment st + 2\<rparr>))" for v tag
    using ne
    by (intro exI[of _ v]) (cases v; simp add: binary_result_Inr binary_result_Inl)
  from assms(1) consider
      "op = rNode_add" "k = KAdd" | "op = rNode_radd" "k = KAdd" | "op = rNode_sub" "k = KSub"
    | "op = rNode_rsub" "k = KRsub" | "op = rNode_mul" "k = KMul" | "op = rNode_rmul" "k = KMul"
    | "op = rNode_truediv" "k = KDiv" | "op = rNode_rtruediv" "k = KRdiv"
    | "op = rNode_pow" "k = KPow"
    by (auto simp: promoting_operators_def)
  then show ?thesis
  proof cases
    case 1
    then show ?thesis using bin[of _ "''+''"]
      by (simp add: rNode_add_def coerce_def rNode_init_def) blast
  next
    case 2
    then show ?thesis using bin[of _ "''+''"]
      by (simp add: rNode_radd_def rNode_add_def coerce_def rNode_init_def) blast
  next
    case 3
    then show ?thesis using bin[of _ "''-''"]
      by (simp add: rNode_sub_def coerce_def rNode_init_def) blast
  next
    case 4
    then show ?thesis using bin[of _ "''-''"]
      by (simp add: rNode_rsub_def coerce_num_def rNode_init_def) blast
  next
    case 5
    then show ?thesis using bin[of _ "''x''"]
      by (simp add: rNode_mul_def coerce_def rNode_init_def) blast
  next
    case 6
    then show ?thesis using bin[of _ "''x''"]
      by (simp add: rNode_rmul_def rNode_mul_def coerce_def rNode_init_def) blast
  next
    case 7
    then show ?thesis using bin[of _ "''/''"]
      by (simp add: rNode_truediv_def coerce_def rNode_init_def) blast
  next
    case 8
    then show ?thesis using bin[of _ "''/''"]
      by (simp add: rNode_rtruediv_def coerce_num_def rNode_init_def) blast
  next
    case 9
    then show ?thesis using bin[of _ "''^''"]
      by (simp add: rNode_pow_def coerce_def rNode_init_def) blast
  qed
qed

lemma rNode_rpow_effect:
  "rNode_rpow self (PNum c) st =
     (case py_pow c (val (heap st ! self)) of
        Inl e \<Rightarrow> (Inl e, st)
      | Inr x \<Rightarrow>
          (Inr (length (heap st)),
           st\<lparr>heap := heap st @
                  [\<lparr>val = x, der = 0, backward_func = RpowRule c self (length (heap st)),
                    oper = OperRpow c, parents = [self], name = increment st\<rparr>],
              increment := increment st + 1\<rparr>))"
  by (simp add: rNode_rpow_def rNode_init_def set_backward_func_def split: sum.splits)

lemma coerce_by_value:
  "coerce (PInt n) st = coerce (PNum (of_int n)) st"
  "coerce_num (PInt n) st = coerce_num (PNum (of_int n)) st"
  by (simp_all add: coerce_def coerce_num_def)

text \<open>
  A numeric operand given as a Python \<^verbatim>\<open>int\<close> is, for every operator of \<^verbatim>\<open>rNode\<close>, the
  number of its value.
\<close>

lemma int_operand_by_value:
  assumes "(op, k) \<in> set promoting_operators"
  shows "op self (PInt n) st = op self (PNum (of_int n)) st"
proof -
  from assms consider
      "op = rNode_add" | "op = rNode_radd" | "op = rNode_sub" | "op = rNode_rsub"
    | "op = rNode_mul" | "op = rNode_rmul" | "op = rNode_truediv" | "op = rNode_rtruediv"
    | "op = rNode_pow"
    by (auto simp: promoting_operators_def)
  then show ?thesis
    by cases
       (simp_all add: rNode_add_def rNode_radd_def rNode_sub_def rNode_rsub_def rNode_mul_def
          rNode_rmul_def rNode_truediv_def rNode_rtruediv_def rNode_pow_def coerce_by_value)
qed

lemma int_rpow_by_value: "rNode_rpow self (PInt n) st = rNode_rpow self (PNum (of_int n)) st"
  by (simp add: rNode_rpow_def)

text \<open>
  C4, as the code has it. For \<open>add\<close>, \<open>radd\<close>, \<open>sub\<close>, \<open>rsub\<close>, \<open>mul\<close>, \<open>rmul\<close>,
  \<open>truediv\<close>, \<open>rtruediv\<close> and \<open>pow\<close> applied to a node and a bare number, the operator
  first creates a fresh leaf from the number, which takes the counter's current value,
  and when the operator returns, the result is the next node, its parents are the node
  and the leaf, and its backward rule adds to the adjoint of each of the two the local
  partial derivative times the result's adjoint. \<open>rpow\<close> creates no leaf: its result is
  the only node created, the node is its only parent, and its rule adds to that node's
  adjoint alone.
\<close>

theorem numeric_operand_promoted:
  assumes "(op, k) \<in> set promoting_operators" "self < length (heap st)"
  shows "heap (snd (op self (PNum c) st)) ! length (heap st) =
           \<lparr>val = c, der = 0, backward_func = NoRule, oper = Oper [], parents = [],
            name = increment st\<rparr> \<and>
         (\<forall>res. fst (op self (PNum c) st) = Inr res \<longrightarrow>
            res = length (heap st) + 1 \<and>
            length (heap (snd (op self (PNum c) st))) = length (heap st) + 2 \<and>
            increment (snd (op self (PNum c) st)) = increment st + 2 \<and>
            parents (heap (snd (op self (PNum c) st)) ! res) = [self, length (heap st)] \<and>
            backward_func (heap (snd (op self (PNum c) st)) ! res) =
              BinRule k self (length (heap st)) res \<and>
            (\<forall>g g'. run_closure (BinRule k self (length (heap st)) res) g = Inr g' \<longrightarrow>
               g' = add_der (length (heap st))
                      (partial_other k (val (g ! self)) (val (g ! length (heap st))) * der (g ! res))
                      (add_der self
                         (partial_self k (val (g ! self)) (val (g ! length (heap st))) * der (g ! res))
                         g))) \<and>
         (\<forall>res. fst (rNode_rpow self (PNum c) st) = Inr res \<longrightarrow>
            res = length (heap st) \<and>
            length (heap (snd (rNode_rpow self (PNum c) st))) = length (heap st) + 1 \<and>
            increment (snd (rNode_rpow self (PNum c) st)) = increment st + 1 \<and>
            parents (heap (snd (rNode_rpow self (PNum c) st)) ! res) = [self] \<and>
            backward_func (heap (snd (rNode_rpow self (PNum c) st)) ! res) = RpowRule c self res \<and>
            (\<forall>g g'. run_closure (RpowRule c self res) g = Inr g' \<longrightarrow>
               g' = add_der self ((the_pow c (val (g ! self)) * np_log c) * der (g ! res)) g))"
proof (intro conjI)
  from promoting_operator_effect[OF assms, of c] obtain v tag where
    eff: "op self (PNum c) st =
     (case v of
        Inl e \<Rightarrow>
          (Inl e,
           st\<lparr>heap := heap st @
                  [\<lparr>val = c, der = 0, backward_func = NoRule, oper = Oper [], parents = [],
                    name = increment st\<rparr>],
              increment := increment st + 1\<rparr>)
      | Inr x \<Rightarrow>
          (Inr (length (heap st) + 1),
           st\<lparr>heap := heap st @
                  [\<lparr>val = c, der = 0, backward_func = NoRule, oper = Oper [], parents = [],
                    name = increment st\<rparr>,
                   \<lparr>val = x, der = 0,
                    backward_func = BinRule k self (length (heap st)) (length (heap st) + 1),
                    oper = Oper tag, parents = [self, length (heap st)],
                    name = increment st + 1\<rparr>],
              increment := increment st + 2\<rparr>))"
    by blast
  show "heap (snd (op self (PNum c) st)) ! length (heap st) =
           \<lparr>val = c, der = 0, backward_func = NoRule, oper = Oper [], parents = [],
            name = increment st\<rparr>"
    unfolding eff by (cases v) (simp_all add: nth_append)
  have clo: "g' = add_der (length (heap st))
                      (partial_other k (val (g ! self)) (val (g ! length (heap st))) * der (g ! res))
                      (add_der self
                         (partial_self k (val (g ! self)) (val (g ! length (heap st))) * der (g ! res))
                         g)"
    if "run_closure (BinRule k self (length (heap st)) res) g = Inr g'" "res = length (heap st) + 1"
    for g g' res
    using run_closure_bin[OF that(1)] that(2) assms(2) by simp
  show "\<forall>res. fst (op self (PNum c) st) = Inr res \<longrightarrow>
            res = length (heap st) + 1 \<and>
            length (heap (snd (op self (PNum c) st))) = length (heap st) + 2 \<and>
            increment (snd (op self (PNum c) st)) = increment st + 2 \<and>
            parents (heap (snd (op self (PNum c) st)) ! res) = [self, length (heap st)] \<and>
            backward_func (heap (snd (op self (PNum c) st)) ! res) =
              BinRule k self (length (heap st)) res \<and>
            (\<forall>g g'. run_closure (BinRule k self (length (heap st)) res) g = Inr g' \<longrightarrow>
               g' = add_der (length (heap st))
                      (partial_other k (val (g ! self)) (val (g ! length (heap st))) * der (g ! res))
                      (add_der self
                         (partial_self k (val (g ! self)) (val (g ! length (heap st))) * der (g ! res))
                         g))"
    unfolding eff using clo by (cases v) (simp_all add: nth_append)
  have rclo: "g' = add_der self ((the_pow c (val (g ! self)) * np_log c) * der (g ! res)) g"
    if "run_closure (RpowRule c self res) g = Inr g'" for g g' res
    using that by (auto simp: bindE_def the_pow_def split: sum.splits)
  show "\<forall>res. fst (rNode_rpow self (PNum c) st) = Inr res \<longrightarrow>
            res = length (heap st) \<and>
            length (heap (snd (rNode_rpow self (PNum c) st))) = length (heap st) + 1 \<and>
            increment (snd (rNode_rpow self (PNum c) st)) = increment st + 1 \<and>
            parents (heap (snd (rNode_rpow self (PNum c) st)) ! res) = [self] \<and>
            backward_func (heap (snd (rNode_rpow self (PNum c) st)) ! res) = RpowRule c self res \<and>
            (\<forall>g g'. run_closure (RpowRule c self res) g = Inr g' \<longrightarrow>
               g' = add_der self ((the_pow c (val (g ! self)) * np_log c) * der (g ! res)) g)"
    unfolding rNode_rpow_effect using rclo
    by (cases "py_pow c (val (heap st ! self))") simp_all
qed

theorem numeric_operand_promoted_witness:
  "(rNode_mul, KMul) \<in> set promoting_operators \<and> 0 < length (heap one_input) \<and>
   fst (rNode_mul 0 (PNum 2) one_input) = Inr 2 \<and>
   increment (snd (rNode_mul 0 (PNum 2) one_input)) = 3 \<and>
   parents (heap (snd (rNode_mul 0 (PNum 2) one_input)) ! 2) = [0, 1] \<and>
   backward_func (heap (snd (rNode_mul 0 (PNum 2) one_input)) ! 2) = BinRule KMul 0 1 2"
proof -
  have m: "(rNode_mul, KMul) \<in> set promoting_operators" by (simp add: promoting_operators_def)
  have l: "0 < length (heap one_input)" by (simp add: one_input_def)
  have r: "fst (rNode_mul 0 (PNum 2) one_input) = Inr 2"
    by (simp add: rNode_mul_def coerce_def rNode_init_def binary_result_Inr one_input_def)
  from numeric_operand_promoted[OF m l, of 2] r m l show ?thesis
    by (simp add: one_input_def)
qed

text \<open>
  \<open>2 ** x\<close> on the single node of \<open>one_input\<close> (one node in the heap, counter at 1): the
  call creates one node, not two, and that node's only parent is \<open>x\<close>.
\<close>

theorem rpow_creates_no_leaf:
  "fst (rNode_rpow 0 (PNum 2) one_input) = Inr 1 \<and>
   length (heap (snd (rNode_rpow 0 (PNum 2) one_input))) = 2 \<and>
   increment (snd (rNode_rpow 0 (PNum 2) one_input)) = 2 \<and>
   parents (heap (snd (rNode_rpow 0 (PNum 2) one_input)) ! 1) = [0] \<and>
   backward_func (heap (snd (rNode_rpow 0 (PNum 2) one_input)) ! 1) = RpowRule 2 0 1"
  by (simp add: rNode_rpow_effect one_input_def py_pow_def)

section \<open>Validation in the entry points\<close>

text \<open>
  C10. For a point of matching length, \<open>__call__\<close> returns whatever the function
  returned, as it is when \<open>num_outputs\<close> is 1 and as an array otherwise, with no check of
  its arity; the same mismatch (a tuple of another length than \<open>num_outputs\<close>, or a
  single result when \<open>num_outputs\<close> is not 1) is an assertion failure in \<open>jacobian\<close>, in
  either mode, and in \<open>trace\<close>.
\<close>

theorem call_checks_no_arity:
  assumes "as_point point = Inr pt" "length pt = num_inputs F"
  shows "(\<forall>r st'. func F pt st = (Inr r, st') \<longrightarrow>
            Func_call F point st = (Inr (if num_outputs F = 1 then Returned r else Array r), st')) \<and>
         (\<forall>zs res st'. 0 < num_inputs F \<longrightarrow>
            dual_inputs pt (identity_column (num_inputs F) 0) = Inr zs \<longrightarrow>
            func F zs st = (Inr res, st') \<longrightarrow>
            (\<exists>xs. res = Tuple xs \<and> length xs \<noteq> num_outputs F) \<or>
            (\<exists>z. res = Single (PDual z) \<and> num_outputs F \<noteq> 1) \<longrightarrow>
            Func_jacobian F point feval False st = (Inl AssertionError, st')) \<and>
         (\<forall>zs res st1 st2.
            node_inputs pt (st\<lparr>increment := 0\<rparr>) = (Inr zs, st1) \<longrightarrow>
            func F zs st1 = (Inr res, st2) \<longrightarrow>
            (\<exists>xs. res = Tuple xs \<and> length xs \<noteq> num_outputs F) \<or>
            (\<exists>r. res = Single (PNode r) \<and> num_outputs F \<noteq> 1) \<longrightarrow>
            Func_jacobian F point feval True st = (Inl AssertionError, st2)) \<and>
         (\<forall>seed zs res st'.
            length seed = num_inputs F \<longrightarrow>
            trace_inputs pt seed = Inr zs \<longrightarrow>
            func F zs st = (Inr res, st') \<longrightarrow>
            (\<exists>xs. res = Tuple xs \<and> length xs \<noteq> num_outputs F) \<or>
            (\<exists>z. res = Single (PDual z) \<and> num_outputs F \<noteq> 1) \<longrightarrow>
            Func_trace F point (ArgList seed) st = (Inl AssertionError, st'))"
proof (intro conjI allI impI)
  fix r st' assume "func F pt st = (Inr r, st')"
  then show "Func_call F point st = (Inr (if num_outputs F = 1 then Returned r else Array r), st')"
    using assms by (simp add: Func_call_def)
next
  fix zs res st'
  assume n: "0 < num_inputs F"
    and zs: "dual_inputs pt (identity_column (num_inputs F) 0) = Inr zs"
    and f: "func F zs st = (Inr res, st')"
    and mm: "(\<exists>xs. res = Tuple xs \<and> length xs \<noteq> num_outputs F) \<or>
            (\<exists>z. res = Single (PDual z) \<and> num_outputs F \<noteq> 1)"
  from n have up: "[0..<num_inputs F] = 0 # [1..<num_inputs F]"
    by (simp add: upt_conv_Cons)
  from mm have "forward_result (num_outputs F) 0 res acc = Inl AssertionError" for acc
    by (auto simp: forward_result_def)
  then have "Func_forward F pt st = (Inl AssertionError, st')"
    using zs f by (simp add: Func_forward_def up)
  then show "Func_jacobian F point feval False st = (Inl AssertionError, st')"
    using assms by (simp add: Func_jacobian_def)
next
  fix zs res st1 st2
  assume zs: "node_inputs pt (st\<lparr>increment := 0\<rparr>) = (Inr zs, st1)"
    and f: "func F zs st1 = (Inr res, st2)"
    and mm: "(\<exists>xs. res = Tuple xs \<and> length xs \<noteq> num_outputs F) \<or>
            (\<exists>r. res = Single (PNode r) \<and> num_outputs F \<noteq> 1)"
  have "reverse_evaluate F pt st = (Inr (zs, res), st2)"
    using zs f by (simp add: reverse_evaluate_def)
  then have "Func_reverse F pt st = (Inl AssertionError, st2)"
    using mm by (auto simp: Func_reverse_def Let_def)
  then show "Func_jacobian F point feval True st = (Inl AssertionError, st2)"
    using assms by (simp add: Func_jacobian_def)
next
  fix seed zs res st'
  assume "length seed = num_inputs F" "trace_inputs pt seed = Inr zs"
    "func F zs st = (Inr res, st')"
    "(\<exists>xs. res = Tuple xs \<and> length xs \<noteq> num_outputs F) \<or>
            (\<exists>z. res = Single (PDual z) \<and> num_outputs F \<noteq> 1)"
  then show "Func_trace F point (ArgList seed) st = (Inl AssertionError, st')"
    using assms by (auto simp: Func_trace_def as_seed_def Let_def)
qed

lemmas run_simps =
  run_prog_def exec_instr_def operand_value_def returned_value_def py_binop_def py_neg_def
  num_binop_def bindE_def as_dual_def as_node_def DualNumber_op_def DualNumber_rop_def
  rNode_op_def rNode_rop_def py_div_def

lemma two_results_plain:
  "func two_results_as_one [PNum 6] empty_state = (Inr (Tuple [PNum 7, PNum 10]), empty_state)"
  by (simp add: two_results_as_one_def two_results_def run_simps)

lemma two_results_dual:
  "func two_results_as_one [PDual \<lparr>real_c = 6, dual_c = 1\<rparr>] empty_state =
     (Inr (Tuple [PDual \<lparr>real_c = 7, dual_c = 1\<rparr>, PDual \<lparr>real_c = 10, dual_c = 1\<rparr>]), empty_state)"
  by (simp add: two_results_as_one_def two_results_def run_simps DualNumber_add_def)

theorem call_checks_no_arity_witness:
  "as_point (ArgNum 6) = Inr [PNum 6] \<and> length [PNum 6 :: pyval] = num_inputs two_results_as_one \<and>
   Func_call two_results_as_one (ArgNum 6) empty_state =
     (Inr (Returned (Tuple [PNum 7, PNum 10])), empty_state) \<and>
   Func_jacobian two_results_as_one (ArgNum 6) False False empty_state =
     (Inl AssertionError, empty_state)"
proof -
  have a: "as_point (ArgNum 6) = Inr [PNum 6]" by (simp add: as_point_def)
  have l: "length [PNum 6 :: pyval] = num_inputs two_results_as_one"
    by (simp add: two_results_as_one_def)
  have n: "0 < num_inputs two_results_as_one" "num_outputs two_results_as_one = 1"
    by (simp_all add: two_results_as_one_def)
  have d: "dual_inputs [PNum 6] (identity_column (num_inputs two_results_as_one) 0) =
      Inr [PDual \<lparr>real_c = 6, dual_c = 1\<rparr>]"
    by (simp add: two_results_as_one_def identity_column_def DualNumber_init_def bindE_def)
  from call_checks_no_arity[OF a l, of empty_state False] two_results_plain two_results_dual n d
  have "Func_call two_results_as_one (ArgNum 6) empty_state =
     (Inr (Returned (Tuple [PNum 7, PNum 10])), empty_state)"
    "Func_jacobian two_results_as_one (ArgNum 6) False False empty_state =
     (Inl AssertionError, empty_state)"
    by auto
  with a l show ?thesis by blast
qed

text \<open>
  C7, as the code has it. In \<open>trace\<close> a single numeric point is promoted to a
  one-element sequence; the direction is not: it must be a list or array, and a bare
  number fails the assertion. When the direction is a sequence, \<open>trace\<close> fails with the
  dimension error whenever the length of the point or of the direction is not
  \<open>num_inputs\<close>, and it does so before the function is called, leaving the state as it
  was. When both lengths are \<open>num_inputs\<close> the checks are passed: \<open>trace\<close> then ends in
  the dimension error only if the inputs were wrapped and the function, called on them,
  raised it.
\<close>

theorem trace_direction_check:
  assumes "as_point point = Inr pt"
  shows "(length pt \<noteq> num_inputs F \<or> length seed \<noteq> num_inputs F \<longrightarrow>
            Func_trace F point (ArgList seed) st = (Inl (ValueError DimensionMismatch), st)) \<and>
         (length pt = num_inputs F \<and> length seed = num_inputs F \<longrightarrow>
            (fst (Func_trace F point (ArgList seed) st) = Inl (ValueError DimensionMismatch) \<longleftrightarrow>
             (\<exists>zs. trace_inputs pt seed = Inr zs \<and>
                   fst (func F zs st) = Inl (ValueError DimensionMismatch)))) \<and>
         Func_trace F point (ArgNum c) st = (Inl AssertionError, st) \<and>
         Func_trace F (ArgNum c) (ArgList seed) st = Func_trace F (ArgList [PNum c]) (ArgList seed) st"
proof (intro conjI impI)
  show "Func_trace F point (ArgNum c) st = (Inl AssertionError, st)"
    using assms by (simp add: Func_trace_def as_seed_def)
  show "Func_trace F (ArgNum c) (ArgList seed) st = Func_trace F (ArgList [PNum c]) (ArgList seed) st"
    by (simp add: Func_trace_def as_point_def)
  show "Func_trace F point (ArgList seed) st = (Inl (ValueError DimensionMismatch), st)"
    if "length pt \<noteq> num_inputs F \<or> length seed \<noteq> num_inputs F"
    using that assms by (auto simp: Func_trace_def as_seed_def)
  show "fst (Func_trace F point (ArgList seed) st) = Inl (ValueError DimensionMismatch) \<longleftrightarrow>
        (\<exists>zs. trace_inputs pt seed = Inr zs \<and>
              fst (func F zs st) = Inl (ValueError DimensionMismatch))"
    if len: "length pt = num_inputs F \<and> length seed = num_inputs F"
  proof -
    have ti: "trace_inputs p s \<noteq> Inl (ValueError DimensionMismatch)" for p s
      by (induction p s rule: trace_inputs.induct)
         (auto simp: bindE_def DualNumber_init_def split: sum.splits pyval.splits)
    have rt: "read_trace ks xs acc \<noteq> Inl (ValueError DimensionMismatch)" for ks xs acc
      by (induction ks xs acc rule: read_trace.induct) (auto split: pyval.splits)
    show ?thesis
    proof (cases "trace_inputs pt seed")
      case (Inl err)
      with len assms ti[of pt seed] show ?thesis
        by (simp add: Func_trace_def as_seed_def)
    next
      case (Inr zs)
      obtain r st' where f: "func F zs st = (r, st')" by (cases "func F zs st")
      show ?thesis
      proof (cases r)
        case (Inl err)
        with len assms Inr f show ?thesis
          by (simp add: Func_trace_def as_seed_def)
      next
        case res: (Inr res)
        with len assms Inr f rt show ?thesis
          by (auto simp: Func_trace_def as_seed_def Let_def
              split: pyret.splits pyval.splits if_splits)
      qed
    qed
  qed
qed

theorem trace_direction_check_witness:
  "as_point (ArgList [PNum 6]) = Inr [PNum 6] \<and>
   length [PNum 4 :: pyval, PNum 2] \<noteq> num_inputs plus_one_func \<and>
   Func_trace plus_one_func (ArgList [PNum 6]) (ArgList [PNum 4, PNum 2]) empty_state =
     (Inl (ValueError DimensionMismatch), empty_state) \<and>
   Func_trace plus_one_func (ArgList [PNum 6]) (ArgNum 9) empty_state =
     (Inl AssertionError, empty_state)"
proof -
  have a: "as_point (ArgList [PNum 6]) = Inr [PNum 6]" by (simp add: as_point_def)
  have l: "length [PNum 4 :: pyval, PNum 2] \<noteq> num_inputs plus_one_func"
    by (simp add: plus_one_func_def)
  from trace_direction_check[OF a, of plus_one_func "[PNum 4, PNum 2]" empty_state 9] l
  have "Func_trace plus_one_func (ArgList [PNum 6]) (ArgList [PNum 4, PNum 2]) empty_state =
     (Inl (ValueError DimensionMismatch), empty_state)"
    "Func_trace plus_one_func (ArgList [PNum 6]) (ArgNum 9) empty_state =
     (Inl AssertionError, empty_state)"
    by blast+
  with a l show ?thesis by blast
qed

text \<open>
  \<^verbatim>\<open>lambda x: x + 1\<close> with one input and one output. A bare number as the direction
  fails the assertion, where the one-element list gives the derivative; and a point of
  the wrong length is a dimension error although the direction has length \<open>num_inputs\<close>.
\<close>

theorem trace_direction_not_promoted:
  "fst (Func_trace plus_one_func (ArgList [PNum 4]) (ArgNum 9) empty_state) = Inl AssertionError \<and>
   fst (Func_trace plus_one_func (ArgList [PNum 4]) (ArgList [PNum 9]) empty_state) = Inr ([5], [9]) \<and>
   fst (Func_trace plus_one_func (ArgList [PNum 6, PNum 2]) (ArgList [PNum 4]) empty_state) =
     Inl (ValueError DimensionMismatch)"
  by (simp add: Func_trace_def as_point_def as_seed_def plus_one_func_def plus_one_def run_simps
      DualNumber_add_def DualNumber_init_def)

section \<open>Creation order of the nodes\<close>

lemma created_refl: "created st st"
  by (simp add: created_def)

lemma created_trans:
  assumes "created st st1" "created st1 st2"
  shows "created st st2"
proof -
  from assms(1) obtain n1 where n1: "heap st1 = heap st @ n1"
    "increment st1 = increment st + length n1" "\<forall>i < length n1. name (n1 ! i) = increment st + i"
    by (auto simp: created_def)
  from assms(2) obtain n2 where n2: "heap st2 = heap st1 @ n2"
    "increment st2 = increment st1 + length n2" "\<forall>i < length n2. name (n2 ! i) = increment st1 + i"
    by (auto simp: created_def)
  have "\<forall>i < length (n1 @ n2). name ((n1 @ n2) ! i) = increment st + i"
    using n1(2,3) n2(3) by (auto simp: nth_append)
  with n1 n2 show ?thesis
    unfolding created_def by (intro exI[of _ "n1 @ n2"]) simp
qed

lemma created_node:
  "name nd = increment st \<Longrightarrow>
   created st (st\<lparr>heap := heap st @ [nd], increment := Suc (increment st)\<rparr>)"
  unfolding created_def by (intro exI[of _ "[nd]"]) simp

lemma created_node':
  "name nd = increment st \<Longrightarrow>
   created st (st\<lparr>increment := Suc (increment st), heap := heap st @ [nd]\<rparr>)"
  unfolding created_def by (intro exI[of _ "[nd]"]) simp

lemma created_init: "created st (snd (rNode_init v ps tag st))"
  by (simp add: rNode_init_def created_node)

lemma created_coerce: "created st (snd (coerce other st))"
  by (cases other) (simp_all add: coerce_def rNode_init_def created_node created_refl)

lemma created_coerce_num: "created st (snd (coerce_num other st))"
  by (cases other) (simp_all add: coerce_num_def rNode_init_def created_node created_refl)

lemma created_binary_result: "created st (snd (binary_result v k tag self other st))"
  by (cases v) (simp_all add: binary_result_Inr binary_result_Inl created_node created_refl)

lemma created_via_coerce:
  assumes "\<And>ot st1. created st1 (snd (f ot st1))"
  shows "created st (snd (case coerce other st of (Inl e, st1) \<Rightarrow> (Inl e, st1)
                                                 | (Inr ot, st1) \<Rightarrow> f ot st1))"
proof (cases "coerce other st")
  case (Pair r st1)
  with created_coerce[of st other] have c: "created st st1" by simp
  show ?thesis
  proof (cases r)
    case (Inl e)
    with Pair c show ?thesis by simp
  next
    case (Inr ot)
    with Pair c assms[of st1 ot] show ?thesis by (auto intro: created_trans)
  qed
qed

lemma created_via_coerce_num:
  assumes "\<And>ot st1. created st1 (snd (f ot st1))"
  shows "created st (snd (case coerce_num other st of (Inl e, st1) \<Rightarrow> (Inl e, st1)
                                                 | (Inr ot, st1) \<Rightarrow> f ot st1))"
proof (cases "coerce_num other st")
  case (Pair r st1)
  with created_coerce_num[of st other] have c: "created st st1" by simp
  show ?thesis
  proof (cases r)
    case (Inl e)
    with Pair c show ?thesis by simp
  next
    case (Inr ot)
    with Pair c assms[of st1 ot] show ?thesis by (auto intro: created_trans)
  qed
qed

lemma created_rNode_op: "created st (snd (rNode_op bop self other st))"
  by (cases bop)
     (simp_all add: rNode_op_def rNode_add_def rNode_sub_def rNode_mul_def rNode_truediv_def
        rNode_pow_def created_via_coerce created_binary_result)

lemma created_rpow: "created st (snd (rNode_rpow self other st))"
  by (cases other)
     (simp_all add: rNode_rpow_def rNode_init_def set_backward_func_def created_refl
        created_node created_node' split: sum.splits)

lemma created_rNode_rop: "created st (snd (rNode_rop bop self other st))"
  by (cases bop)
     (simp_all add: rNode_rop_def rNode_radd_def rNode_rmul_def rNode_add_def rNode_mul_def
        rNode_rsub_def rNode_rtruediv_def created_via_coerce created_via_coerce_num
        created_binary_result created_rpow)

lemma created_elementary: "created st (snd (elementary f x st))"
  by (cases x)
     (simp_all add: elementary_def rNode_init_def set_backward_func_def created_refl
        created_node created_node')

lemma snd_as_node: "snd (as_node r) = snd r"
  by (cases r; cases "fst r") (auto simp: as_node_def)

lemma snd_as_dual: "snd (as_dual r st) = st"
  by (cases r) (simp_all add: as_dual_def)

lemma created_py_binop: "created st (snd (py_binop bop x y st))"
proof -
  have m: "created st (snd (rNode_mul s (PNum (- 1)) st))" for s
    using created_rNode_op[of st Times] by (simp add: rNode_op_def)
  show ?thesis
    by (cases x; cases y)
       (auto simp: py_binop_def snd_as_node snd_as_dual created_refl created_rNode_op
          created_rNode_rop m split: sum.splits)
qed

lemma created_py_neg: "created st (snd (py_neg x st))"
  using created_rNode_op[of st Times]
  by (cases x) (simp_all add: py_neg_def snd_as_node created_refl rNode_neg_def rNode_op_def)

lemma created_exec_instr: "created st (snd (exec_instr ins regs st))"
  by (cases ins)
     (auto simp: exec_instr_def created_refl created_py_binop created_py_neg created_elementary
        split: sum.splits)

lemma created_exec_body: "created st (snd (exec_body is regs st))"
proof (induction "is" arbitrary: regs st)
  case Nil
  then show ?case by (simp add: created_refl)
next
  case (Cons ins rest)
  obtain r st' where r: "exec_instr ins regs st = (r, st')" by (cases "exec_instr ins regs st")
  with created_exec_instr[of st ins regs] have c: "created st st'" by simp
  show ?case
  proof (cases r)
    case (Inl e)
    with r c show ?thesis by simp
  next
    case (Inr v)
    with r c Cons.IH[of st' "regs @ [v]"] show ?thesis by (auto intro: created_trans)
  qed
qed

lemma created_run_prog: "created st (snd (run_prog p args st))"
  using created_exec_body[of st "body p" args]
  by (auto simp: run_prog_def created_refl split: prod.splits sum.splits)

lemma node_inputs_numeric:
  "\<exists>new. node_inputs (map PNum cs) st =
      (Inr (map (\<lambda>i. PNode (length (heap st) + i)) [0..<length cs]),
       st\<lparr>heap := heap st @ new, increment := increment st + length cs\<rparr>) \<and>
     length new = length cs \<and>
     (\<forall>i < length cs. new ! i =
        \<lparr>val = cs ! i, der = 0, backward_func = NoRule, oper = Oper [], parents = [],
         name = increment st + i\<rparr>)"
proof (induction cs arbitrary: st)
  case Nil
  then show ?case by simp
next
  case (Cons c cs)
  let ?nd = "\<lparr>val = c, der = 0, backward_func = NoRule, oper = Oper [], parents = [],
         name = increment st\<rparr>"
  let ?st1 = "st\<lparr>heap := heap st @ [?nd], increment := increment st + 1\<rparr>"
  from Cons.IH[of ?st1] obtain new where new:
    "node_inputs (map PNum cs) ?st1 =
      (Inr (map (\<lambda>i. PNode (length (heap ?st1) + i)) [0..<length cs]),
       ?st1\<lparr>heap := heap ?st1 @ new, increment := increment ?st1 + length cs\<rparr>)"
    "length new = length cs"
    "\<forall>i < length cs. new ! i =
        \<lparr>val = cs ! i, der = 0, backward_func = NoRule, oper = Oper [], parents = [],
         name = increment ?st1 + i\<rparr>"
    by blast
  have zs: "PNode (length (heap st)) # map (\<lambda>i. PNode (length (heap ?st1) + i)) [0..<length cs] =
      map (\<lambda>i. PNode (length (heap st) + i)) [0..<length (c # cs)]"
    by (simp add: upt_conv_Cons map_Suc_upt[symmetric] del: upt_Suc)
  have run: "node_inputs (map PNum (c # cs)) st =
      (Inr (map (\<lambda>i. PNode (length (heap st) + i)) [0..<length (c # cs)]),
       st\<lparr>heap := heap st @ (?nd # new), increment := increment st + length (c # cs)\<rparr>)"
    using new(1) zs by (simp add: rNode_init_def)
  have nth: "\<forall>i < length (c # cs). (?nd # new) ! i =
        \<lparr>val = (c # cs) ! i, der = 0, backward_func = NoRule, oper = Oper [], parents = [],
         name = increment st + i\<rparr>"
    using new(3) by (auto simp: nth_Cons split: nat.splits)
  from run nth new(2) show ?case
    by (intro exI[of _ "?nd # new"]) simp
qed

text \<open>The coordinates of a point that are Python \<^verbatim>\<open>int\<close>s become the nodes of their values.\<close>

lemma node_inputs_by_value: "node_inputs (map by_value pt) st = node_inputs pt st"
proof (induction pt arbitrary: st)
  case Nil
  then show ?case by simp
next
  case (Cons p pt)
  then show ?case by (cases p) (simp_all add: rNode_init_def)
qed

lemma graph_evaluate_by_value:
  "graph_evaluate F (map by_value pt) st = graph_evaluate F pt st"
  "reverse_evaluate F (map by_value pt) st = reverse_evaluate F pt st"
  by (simp_all add: graph_evaluate_def reverse_evaluate_def node_inputs_by_value)

lemma inputs_then_function:
  assumes "func F = run_prog p"
  shows "\<exists>new.
     heap (snd (graph_evaluate F (map PNum cs) s0)) = heap s0 @ new \<and>
     length cs \<le> length new \<and>
     increment (snd (graph_evaluate F (map PNum cs) s0)) = increment s0 + length new \<and>
     (\<forall>i < length new. name (new ! i) = increment s0 + i) \<and>
     (\<forall>i < length cs. val (new ! i) = cs ! i \<and> parents (new ! i) = [] \<and>
        backward_func (new ! i) = NoRule) \<and>
     (\<forall>zs res. fst (graph_evaluate F (map PNum cs) s0) = Inr (zs, res) \<longrightarrow>
        zs = map (\<lambda>i. PNode (length (heap s0) + i)) [0..<length cs])"
proof -
  from node_inputs_numeric[of cs s0] obtain new0 where new0:
    "node_inputs (map PNum cs) s0 =
      (Inr (map (\<lambda>i. PNode (length (heap s0) + i)) [0..<length cs]),
       s0\<lparr>heap := heap s0 @ new0, increment := increment s0 + length cs\<rparr>)"
    "length new0 = length cs"
    "\<forall>i < length cs. new0 ! i =
        \<lparr>val = cs ! i, der = 0, backward_func = NoRule, oper = Oper [], parents = [],
         name = increment s0 + i\<rparr>"
    by blast
  let ?zs = "map (\<lambda>i. PNode (length (heap s0) + i)) [0..<length cs]"
  let ?s1 = "s0\<lparr>heap := heap s0 @ new0, increment := increment s0 + length cs\<rparr>"
  obtain r s2 where r: "run_prog p ?zs ?s1 = (r, s2)" by (cases "run_prog p ?zs ?s1")
  with created_run_prog[of ?s1 p ?zs] obtain new1 where new1:
    "heap s2 = heap ?s1 @ new1" "increment s2 = increment ?s1 + length new1"
    "\<forall>i < length new1. name (new1 ! i) = increment ?s1 + i"
    by (auto simp: created_def)
  have ev: "graph_evaluate F (map PNum cs) s0 =
      (case r of Inl e \<Rightarrow> (Inl e, s2) | Inr res \<Rightarrow> (Inr (?zs, res), s2))"
    using new0(1) r assms by (simp add: graph_evaluate_def split: sum.splits)
  have sn: "snd (graph_evaluate F (map PNum cs) s0) = s2"
    unfolding ev by (cases r) simp_all
  have names: "\<forall>i < length (new0 @ new1). name ((new0 @ new1) ! i) = increment s0 + i"
    using new0(2,3) new1(3) by (auto simp: nth_append)
  have firsts: "\<forall>i < length cs. val ((new0 @ new1) ! i) = cs ! i \<and>
      parents ((new0 @ new1) ! i) = [] \<and> backward_func ((new0 @ new1) ! i) = NoRule"
    using new0(2,3) by (simp add: nth_append)
  have zs: "\<forall>zs res. fst (graph_evaluate F (map PNum cs) s0) = Inr (zs, res) \<longrightarrow> zs = ?zs"
    unfolding ev by (cases r) simp_all
  show ?thesis
    unfolding sn using new1(1,2) new0(2) names firsts zs
    by (intro exI[of _ "new0 @ new1"]) simp
qed

lemma reverse_evaluate_graph_evaluate:
  "reverse_evaluate F point st = graph_evaluate F point (st\<lparr>increment := 0\<rparr>)"
  by (simp add: reverse_evaluate_def graph_evaluate_def)

text \<open>
  C2, as the code has it. On the reverse-mode jacobian path the counter is set to 0, the
  coordinates of the point become the first nodes created, in their order, and every
  node created during the evaluation has the number of nodes created before it as its
  creation index: the index is below \<open>num_inputs\<close> exactly for the inputs, and is the
  input's position. The graph entry point does not set the counter: there the nodes
  are created in the same order, with indices counted from the counter's value at the
  call.
\<close>

theorem inputs_created_first:
  assumes "func F = run_prog p" "length cs = num_inputs F"
  shows "(\<exists>new.
     heap (snd (reverse_evaluate F (map PNum cs) st)) = heap st @ new \<and>
     num_inputs F \<le> length new \<and>
     increment (snd (reverse_evaluate F (map PNum cs) st)) = length new \<and>
     (\<forall>i < length new. name (new ! i) = i \<and> (name (new ! i) < num_inputs F \<longleftrightarrow> i < num_inputs F)) \<and>
     (\<forall>i < num_inputs F. val (new ! i) = cs ! i \<and> parents (new ! i) = [] \<and>
        backward_func (new ! i) = NoRule) \<and>
     (\<forall>zs res. fst (reverse_evaluate F (map PNum cs) st) = Inr (zs, res) \<longrightarrow>
        zs = map (\<lambda>i. PNode (length (heap st) + i)) [0..<num_inputs F])) \<and>
   (\<exists>new.
     heap (snd (graph_evaluate F (map PNum cs) st)) = heap st @ new \<and>
     num_inputs F \<le> length new \<and>
     increment (snd (graph_evaluate F (map PNum cs) st)) = increment st + length new \<and>
     (\<forall>i < length new. name (new ! i) = increment st + i) \<and>
     (\<forall>i < num_inputs F. val (new ! i) = cs ! i \<and> parents (new ! i) = [] \<and>
        backward_func (new ! i) = NoRule) \<and>
     (\<forall>zs res. fst (graph_evaluate F (map PNum cs) st) = Inr (zs, res) \<longrightarrow>
        zs = map (\<lambda>i. PNode (length (heap st) + i)) [0..<num_inputs F]))"
proof (intro conjI)
  from inputs_then_function[OF assms(1), of cs "st\<lparr>increment := 0\<rparr>"]
  show "\<exists>new.
     heap (snd (reverse_evaluate F (map PNum cs) st)) = heap st @ new \<and>
     num_inputs F \<le> length new \<and>
     increment (snd (reverse_evaluate F (map PNum cs) st)) = length new \<and>
     (\<forall>i < length new. name (new ! i) = i \<and> (name (new ! i) < num_inputs F \<longleftrightarrow> i < num_inputs F)) \<and>
     (\<forall>i < num_inputs F. val (new ! i) = cs ! i \<and> parents (new ! i) = [] \<and>
        backward_func (new ! i) = NoRule) \<and>
     (\<forall>zs res. fst (reverse_evaluate F (map PNum cs) st) = Inr (zs, res) \<longrightarrow>
        zs = map (\<lambda>i. PNode (length (heap st) + i)) [0..<num_inputs F])"
    unfolding reverse_evaluate_graph_evaluate assms(2)[symmetric]
    by (elim exE, rule_tac x = new in exI) simp
  from inputs_then_function[OF assms(1), of cs st]
  show "\<exists>new.
     heap (snd (graph_evaluate F (map PNum cs) st)) = heap st @ new \<and>
     num_inputs F \<le> length new \<and>
     increment (snd (graph_evaluate F (map PNum cs) st)) = increment st + length new \<and>
     (\<forall>i < length new. name (new ! i) = increment st + i) \<and>
     (\<forall>i < num_inputs F. val (new ! i) = cs ! i \<and> parents (new ! i) = [] \<and>
        backward_func (new ! i) = NoRule) \<and>
     (\<forall>zs res. fst (graph_evaluate F (map PNum cs) st) = Inr (zs, res) \<longrightarrow>
        zs = map (\<lambda>i. PNode (length (heap st) + i)) [0..<num_inputs F])"
    unfolding assms(2)[symmetric] by simp
qed

lemma plus_one_nodes:
  "graph_evaluate plus_one_func [PNum 3] s0 =
     (Inr ([PNode (length (heap s0))], Single (PNode (length (heap s0) + 2))),
      s0\<lparr>heap := heap s0 @
          [\<lparr>val = 3, der = 0, backward_func = NoRule, oper = Oper [], parents = [],
            name = increment s0\<rparr>,
           \<lparr>val = 1, der = 0, backward_func = NoRule, oper = Oper [], parents = [],
            name = increment s0 + 1\<rparr>,
           \<lparr>val = 4, der = 0,
            backward_func = BinRule KAdd (length (heap s0)) (length (heap s0) + 1) (length (heap s0) + 2),
            oper = Oper ''+'', parents = [length (heap s0), length (heap s0) + 1],
            name = increment s0 + 2\<rparr>],
         increment := increment s0 + 3\<rparr>)"
  by (simp add: graph_evaluate_def plus_one_func_def plus_one_def run_simps rNode_init_def
      rNode_add_def coerce_def binary_result_Inr nth_append)

theorem inputs_created_first_witness:
  "func plus_one_func = run_prog plus_one \<and> length [3 :: real] = num_inputs plus_one_func \<and>
   fst (reverse_evaluate plus_one_func (map PNum [3]) one_input) = Inr ([PNode 1], Single (PNode 3)) \<and>
   map name (heap (snd (reverse_evaluate plus_one_func (map PNum [3]) one_input))) = [0, 0, 1, 2] \<and>
   increment (snd (reverse_evaluate plus_one_func (map PNum [3]) one_input)) = 3"
proof -
  have f: "func plus_one_func = run_prog plus_one" by (simp add: plus_one_func_def)
  have l: "length [3 :: real] = num_inputs plus_one_func" by (simp add: plus_one_func_def)
  have e: "reverse_evaluate plus_one_func (map PNum [3]) one_input =
     (Inr ([PNode 1], Single (PNode 3)),
      \<lparr>heap =
          [\<lparr>val = 3, der = 0, backward_func = NoRule, oper = Oper [], parents = [], name = 0\<rparr>,
           \<lparr>val = 3, der = 0, backward_func = NoRule, oper = Oper [], parents = [], name = 0\<rparr>,
           \<lparr>val = 1, der = 0, backward_func = NoRule, oper = Oper [], parents = [], name = 1\<rparr>,
           \<lparr>val = 4, der = 0, backward_func = BinRule KAdd 1 2 3, oper = Oper ''+'',
            parents = [1, 2], name = 2\<rparr>],
       increment = 3\<rparr>)"
    by (simp add: reverse_evaluate_graph_evaluate plus_one_nodes one_input_def)
  from inputs_created_first[OF f l, of one_input] obtain new where
    h: "heap (snd (reverse_evaluate plus_one_func (map PNum [3]) one_input)) = heap one_input @ new"
    and i: "increment (snd (reverse_evaluate plus_one_func (map PNum [3]) one_input)) = length new"
    by blast
  have hl: "length (heap (snd (reverse_evaluate plus_one_func (map PNum [3]) one_input))) = 4"
    unfolding e by simp
  have "length (heap one_input) = 1" by (simp add: one_input_def)
  with arg_cong[OF h, of length] hl have "length new = 3" by simp
  with i have "increment (snd (reverse_evaluate plus_one_func (map PNum [3]) one_input)) = 3"
    by simp
  moreover have "fst (reverse_evaluate plus_one_func (map PNum [3]) one_input) =
      Inr ([PNode 1], Single (PNode 3))"
    "map name (heap (snd (reverse_evaluate plus_one_func (map PNum [3]) one_input))) = [0, 0, 1, 2]"
    unfolding e by simp_all
  ultimately show ?thesis using f l by blast
qed

text \<open>
  \<^verbatim>\<open>Func(lambda x: x + 1, 1, 1).graph(3)\<close> called when one node exists and the counter
  is 1: the input becomes the node at address 1 with creation index 1, which is not
  below \<open>num_inputs = 1\<close>, and the counter goes on from 1 to 4.
\<close>

theorem graph_does_not_reset_counter:
  "num_inputs plus_one_func = 1 \<and> increment one_input = 1 \<and>
   fst (graph_evaluate plus_one_func [PNum 3] one_input) = Inr ([PNode 1], Single (PNode 3)) \<and>
   name (heap (snd (Func_graph plus_one_func (ArgNum 3) ''LR'' one_input)) ! 1) = 1 \<and>
   increment (snd (Func_graph plus_one_func (ArgNum 3) ''LR'' one_input)) = 4"
proof -
  have g: "snd (Func_graph plus_one_func (ArgNum 3) ''LR'' one_input) =
      snd (graph_evaluate plus_one_func [PNum 3] one_input)"
    by (simp add: Func_graph_def as_point_def plus_one_nodes)
       (simp add: plus_one_func_def)
  show ?thesis
    unfolding g by (simp add: plus_one_nodes) (simp add: one_input_def plus_one_func_def)
qed

end
